theory Spec2Isabelle
  imports Main
begin

section \<open>Data model\<close>

text \<open>
  The ledger of \<^verbatim>\<open>sample_view.py\<close>: two MongoDB collections, \<^verbatim>\<open>sample_positions\<close> and
  \<^verbatim>\<open>samples\<close>. A collection is the list of its documents in insertion order, which is
  the order \<^verbatim>\<open>find\<close> iterates in and the order in which \<^verbatim>\<open>find_one\<close> picks the first
  match. An \<^verbatim>\<open>ObjectId\<close> is a natural number. The time stamps \<^verbatim>\<open>created_at\<close> and
  \<^verbatim>\<open>last_updated\<close> are left out: no operation below reads them.
\<close>

type_synonym ObjectId = nat

record position_doc =
  pos_name :: string
  pos_description :: string
  pos_task_id :: "ObjectId option"
  pos_parent_device :: "string option"

record sample_doc =
  smp_id :: ObjectId
  smp_name :: string
  smp_tags :: "string list"
  smp_metadata :: "(string \<times> string) list"
  smp_position :: "string option"
  smp_task_id :: "ObjectId option"

record database =
  sample_positions_collection :: "position_doc list"
  sample_collection :: "sample_doc list"

text \<open>\<^verbatim>\<open>class SamplePositionRequest(BaseModel)\<close>: \<^verbatim>\<open>number: conint(ge=0) = 1\<close>.\<close>

record SamplePositionRequest =
  prefix :: string
  number :: nat

datatype SamplePositionStatus = EMPTY | OCCUPIED | LOCKED

text \<open>An entry of the list \<^verbatim>\<open>get_available_sample_position\<close> returns:
  \<^verbatim>\<open>{"name": str, "need_release": bool}\<close>.\<close>

record available_position =
  name :: string
  need_release :: bool

text \<open>
  Every \<^verbatim>\<open>raise\<close> of the two source files raises \<^verbatim>\<open>ValueError\<close>; the message tells the
  raise sites apart, so the model keeps one constructor per message. The other errors
  are the store's (\<^verbatim>\<open>insert_one\<close> with an \<^verbatim>\<open>_id\<close> already present), pydantic's (a
  negative \<^verbatim>\<open>number\<close>), Python's (\<^verbatim>\<open>None["task_id"]\<close>) and whatever the body of a
  \<^verbatim>\<open>with\<close> block raises.
\<close>

datatype value_error =
    DuplicatedSamplePositions
  | NotEnoughMatches string nat nat
  | InvalidSamplePosition string
  | CannotFindDevice string
  | PositionOccupied string
  | PositionLocked "ObjectId option"
  | UnsupportedPositionName string
  | PositionNotEmpty string
  | UnsupportedSampleName string
  | NoSampleFound ObjectId
  | CannotFindSample ObjectId
  | PositionNotEmptyOrLocked string
  | MoveWithoutLocking string
  | SampleNotOfThisTask

datatype error =
    ValueError value_error
  | DuplicateKeyError ObjectId
  | ValidationError
  | TypeError
  | TimeoutError
  | BodyError string

section \<open>The store's queries\<close>

text \<open>\<^verbatim>\<open>{"name": {"$regex": f"^{re.escape(prefix)}"}}\<close>: the name starts with the prefix,
  read literally.\<close>

definition regex_prefix :: "string \<Rightarrow> string \<Rightarrow> bool" where
  "regex_prefix p s = (take (length p) s = p)"

text \<open>\<^verbatim>\<open>update_one(filter, {"$set": ...})\<close> changes the first document that matches.\<close>

fun update_one :: "('a \<Rightarrow> bool) \<Rightarrow> ('a \<Rightarrow> 'a) \<Rightarrow> 'a list \<Rightarrow> 'a list" where
  "update_one P f [] = []"
| "update_one P f (x # xs) = (if P x then f x # xs else x # update_one P f xs)"

section \<open>SampleView: sample positions\<close>

definition get_sample_position :: "database \<Rightarrow> string \<Rightarrow> position_doc option" where
  "get_sample_position db position =
     find (\<lambda>sp. pos_name sp = position) (sample_positions_collection db)"

definition get_sample_position_status ::
  "database \<Rightarrow> string \<Rightarrow> error + (SamplePositionStatus \<times> ObjectId option)" where
  "get_sample_position_status db position =
     (case get_sample_position db position of
        None \<Rightarrow> Inl (ValueError (InvalidSamplePosition position))
      | Some sample_position \<Rightarrow>
          (case find (\<lambda>s. smp_position s = Some position) (sample_collection db) of
             Some sample \<Rightarrow> Inr (OCCUPIED, smp_task_id sample)
           | None \<Rightarrow>
               (case pos_task_id sample_position of
                  Some t \<Rightarrow> Inr (LOCKED, Some t)
                | None \<Rightarrow> Inr (EMPTY, None))))"

definition is_unoccupied_position :: "database \<Rightarrow> string \<Rightarrow> error + bool" where
  "is_unoccupied_position db position =
     (case get_sample_position_status db position of
        Inl e \<Rightarrow> Inl e
      | Inr (status, current_task_id) \<Rightarrow> Inr (status \<noteq> OCCUPIED))"

text \<open>The loop of \<^verbatim>\<open>get_available_sample_position\<close> over the cursor.\<close>

fun available_sp_names ::
  "database \<Rightarrow> ObjectId \<Rightarrow> position_doc list \<Rightarrow> error + available_position list" where
  "available_sp_names db task_id [] = Inr []"
| "available_sp_names db task_id (sample_position # rest) =
     (case get_sample_position_status db (pos_name sample_position) of
        Inl e \<Rightarrow> Inl e
      | Inr (status, current_task_id) \<Rightarrow>
          if status = EMPTY \<or> Some task_id = current_task_id then
            (case get_sample_position db (pos_name sample_position) of
               None \<Rightarrow> Inl TypeError
             | Some d \<Rightarrow>
                 (case available_sp_names db task_id rest of
                    Inl e \<Rightarrow> Inl e
                  | Inr names \<Rightarrow>
                      Inr (\<lparr>name = pos_name sample_position,
                            need_release = (pos_task_id d \<noteq> Some task_id)\<rparr> # names)))
          else available_sp_names db task_id rest)"

definition get_available_sample_position ::
  "database \<Rightarrow> ObjectId \<Rightarrow> string \<Rightarrow> error + available_position list" where
  "get_available_sample_position db task_id position_prefix =
     (if find (\<lambda>sp. regex_prefix position_prefix (pos_name sp))
           (sample_positions_collection db) = None
      then Inl (ValueError (CannotFindDevice position_prefix))
      else available_sp_names db task_id
             (filter (\<lambda>sp. regex_prefix position_prefix (pos_name sp) \<and>
                            (pos_task_id sp = None \<or> pos_task_id sp = Some task_id))
                (sample_positions_collection db)))"

text \<open>
  An element of the argument list of \<^verbatim>\<open>request_sample_positions\<close>: a string, a dict
  (here: its \<^verbatim>\<open>prefix\<close> and its \<^verbatim>\<open>number\<close>, when it has one) or a
  \<^verbatim>\<open>SamplePositionRequest\<close>.
\<close>

datatype sample_position_arg =
    Str string
  | Dict string "int option"
  | Req SamplePositionRequest

fun from_py_type :: "sample_position_arg \<Rightarrow> error + SamplePositionRequest" where
  "from_py_type (Str s) = Inr \<lparr>prefix = s, number = 1\<rparr>"
| "from_py_type (Dict p None) = Inr \<lparr>prefix = p, number = 1\<rparr>"
| "from_py_type (Dict p (Some n)) =
     (if 0 \<le> n then Inr \<lparr>prefix = p, number = nat n\<rparr> else Inl ValidationError)"
| "from_py_type (Req r) = Inr r"

fun sample_positions_request ::
  "sample_position_arg list \<Rightarrow> error + SamplePositionRequest list" where
  "sample_positions_request [] = Inr []"
| "sample_positions_request (a # as) =
     (case from_py_type a of
        Inl e \<Rightarrow> Inl e
      | Inr r \<Rightarrow>
          (case sample_positions_request as of
             Inl e \<Rightarrow> Inl e
           | Inr rs \<Rightarrow> Inr (r # rs)))"

definition count_documents :: "database \<Rightarrow> string \<Rightarrow> nat" where
  "count_documents db p =
     length (filter (\<lambda>sp. regex_prefix p (pos_name sp)) (sample_positions_collection db))"

text \<open>The loop "check if there are enough positions".\<close>

fun check_enough_positions :: "database \<Rightarrow> SamplePositionRequest list \<Rightarrow> error + unit" where
  "check_enough_positions db [] = Inr ()"
| "check_enough_positions db (sample_position # rest) =
     (if count_documents db (prefix sample_position) < number sample_position
      then Inl (ValueError (NotEnoughMatches (prefix sample_position)
                  (count_documents db (prefix sample_position)) (number sample_position)))
      else check_enough_positions db rest)"

text \<open>
  The loop inside \<^verbatim>\<open>with self._lock()\<close>. The dict \<^verbatim>\<open>available_positions\<close> is the list of
  its items in insertion order; the prefixes are pairwise distinct when the loop is
  reached, so no item is overwritten. \<^verbatim>\<open>sorted\<close> is stable, as \<^const>\<open>sort_key\<close> is.
\<close>

type_synonym grant = "(string \<times> available_position list) list"

fun available_positions ::
  "database \<Rightarrow> ObjectId \<Rightarrow> SamplePositionRequest list \<Rightarrow> error + grant option" where
  "available_positions db task_id [] = Inr (Some [])"
| "available_positions db task_id (sample_position # rest) =
     (case get_available_sample_position db task_id (prefix sample_position) of
        Inl e \<Rightarrow> Inl e
      | Inr result \<Rightarrow>
          if result = [] \<or> length result < number sample_position then Inr None
          else
            (case available_positions db task_id rest of
               Inl e \<Rightarrow> Inl e
             | Inr None \<Rightarrow> Inr None
             | Inr (Some g) \<Rightarrow>
                 Inr (Some ((prefix sample_position,
                             take (number sample_position)
                               (sort_key (\<lambda>task. (of_bool (need_release task) :: int)) result))
                            # g))))"

text \<open>
  \<^verbatim>\<open>request_sample_positions\<close> returns its result together with the ledger it leaves:
  the source has no write, so the ledger is the one it was given. The lock is
  transparent in a sequential run.
\<close>

definition request_sample_positions ::
  "ObjectId \<Rightarrow> sample_position_arg list \<Rightarrow> database \<Rightarrow> (error + grant option) \<times> database" where
  "request_sample_positions task_id sample_positions db =
     (case sample_positions_request sample_positions of
        Inl e \<Rightarrow> (Inl e, db)
      | Inr reqs \<Rightarrow>
          if length reqs \<noteq> length (remdups (map prefix reqs))
          then (Inl (ValueError DuplicatedSamplePositions), db)
          else
            (case check_enough_positions db reqs of
               Inl e \<Rightarrow> (Inl e, db)
             | Inr u \<Rightarrow> (available_positions db task_id reqs, db)))"

definition set_task_id :: "ObjectId option \<Rightarrow> position_doc \<Rightarrow> position_doc" where
  "set_task_id t sp = sp\<lparr>pos_task_id := t\<rparr>"

definition lock_sample_position ::
  "ObjectId \<Rightarrow> string \<Rightarrow> database \<Rightarrow> (error + unit) \<times> database" where
  "lock_sample_position task_id position db =
     (case get_sample_position_status db position of
        Inl e \<Rightarrow> (Inl e, db)
      | Inr (sample_status, current_task_id) \<Rightarrow>
          if current_task_id \<noteq> Some task_id \<and> sample_status = OCCUPIED
          then (Inl (ValueError (PositionOccupied position)), db)
          else if current_task_id \<noteq> Some task_id \<and> sample_status = LOCKED
          then (Inl (ValueError (PositionLocked current_task_id)), db)
          else (Inr (),
                db\<lparr>sample_positions_collection :=
                     update_one (\<lambda>sp. pos_name sp = position) (set_task_id (Some task_id))
                       (sample_positions_collection db)\<rparr>))"

definition release_sample_position :: "string \<Rightarrow> database \<Rightarrow> (error + unit) \<times> database" where
  "release_sample_position position db =
     (case get_sample_position db position of
        None \<Rightarrow> (Inl (ValueError (InvalidSamplePosition position)), db)
      | Some sp \<Rightarrow>
          (Inr (),
           db\<lparr>sample_positions_collection :=
                update_one (\<lambda>sp. pos_name sp = position) (set_task_id None)
                  (sample_positions_collection db)\<rparr>))"

text \<open>
  Modelled from the spec: \<^verbatim>\<open>SamplePosition\<close> (\<^verbatim>\<open>sample.py\<close>, not among the sources) with the
  three attributes \<^verbatim>\<open>add_sample_positions_to_db\<close> reads, and its class constant
  \<^verbatim>\<open>SEPARATOR\<close>: position names are "hierarchical, segment-separated", written
  \<^verbatim>\<open>oven/tray/1\<close> in the spec.
\<close>

record SamplePosition =
  sp_name :: string
  sp_number :: nat
  sp_description :: string

definition SEPARATOR :: string where
  "SEPARATOR = ''/''"

text \<open>Python's \<^verbatim>\<open>str\<close> of a non-negative integer, as the f-string formats \<^verbatim>\<open>i+1\<close>.\<close>

definition digit :: "nat \<Rightarrow> char" where
  "digit d = ''0123456789'' ! d"

function str_nat :: "nat \<Rightarrow> string" where
  "str_nat n = (if n < 10 then [digit n] else str_nat (n div 10) @ [digit (n mod 10)])"
  by pat_completeness auto
termination
  by (relation "measure id") auto

text \<open>\<^verbatim>\<open>if parent_device_name:\<close> is false for \<^verbatim>\<open>None\<close> and for the empty string.\<close>

fun truthy :: "string option \<Rightarrow> bool" where
  "truthy None = False"
| "truthy (Some d) = (d \<noteq> [])"

definition position_name :: "SamplePosition \<Rightarrow> string option \<Rightarrow> nat \<Rightarrow> string" where
  "position_name sample_pos parent_device_name i =
     (let name = (if sp_number sample_pos \<noteq> 1
                  then sp_name sample_pos @ SEPARATOR @ str_nat (i + 1)
                  else sp_name sample_pos)
      in case parent_device_name of
           None \<Rightarrow> name
         | Some d \<Rightarrow> if d \<noteq> [] then d @ SEPARATOR @ name else name)"

text \<open>\<^verbatim>\<open>re.search(r"[$.]", name) is not None\<close>.\<close>

definition has_reserved_char :: "string \<Rightarrow> bool" where
  "has_reserved_char s = (CHR ''$'' \<in> set s \<or> CHR ''.'' \<in> set s)"

text \<open>The inner loop \<^verbatim>\<open>for i in range(sample_pos.number)\<close>, then the outer one. A raise
  leaves the ledger as the iterations before it made it.\<close>

fun add_numbered_positions ::
  "SamplePosition \<Rightarrow> string option \<Rightarrow> nat list \<Rightarrow> database \<Rightarrow> (error + unit) \<times> database" where
  "add_numbered_positions sample_pos parent_device_name [] db = (Inr (), db)"
| "add_numbered_positions sample_pos parent_device_name (i # rest) db =
     (if has_reserved_char (position_name sample_pos parent_device_name i)
      then (Inl (ValueError (UnsupportedPositionName
                   (position_name sample_pos parent_device_name i))), db)
      else add_numbered_positions sample_pos parent_device_name rest
             (case get_sample_position db (position_name sample_pos parent_device_name i) of
                Some sample_pos' \<Rightarrow> db
              | None \<Rightarrow>
                  db\<lparr>sample_positions_collection := sample_positions_collection db @
                       [\<lparr>pos_name = position_name sample_pos parent_device_name i,
                         pos_description = sp_description sample_pos,
                         pos_task_id = None,
                         pos_parent_device =
                           (if truthy parent_device_name then parent_device_name else None)\<rparr>]\<rparr>))"

fun add_sample_positions_to_db ::
  "SamplePosition list \<Rightarrow> string option \<Rightarrow> database \<Rightarrow> (error + unit) \<times> database" where
  "add_sample_positions_to_db [] parent_device_name db = (Inr (), db)"
| "add_sample_positions_to_db (sample_pos # rest) parent_device_name db =
     (case add_numbered_positions sample_pos parent_device_name [0..<sp_number sample_pos] db of
        (Inl e, db') \<Rightarrow> (Inl e, db')
      | (Inr u, db') \<Rightarrow> add_sample_positions_to_db rest parent_device_name db')"

section \<open>SampleView: samples\<close>

text \<open>The \<^verbatim>\<open>_id\<close> the driver gives a document inserted without one: one not in the
  collection.\<close>

definition new_ObjectId :: "database \<Rightarrow> ObjectId" where
  "new_ObjectId db = Suc (fold max (map smp_id (sample_collection db)) 0)"

text \<open>
  \<^verbatim>\<open>create_sample\<close>. \<^verbatim>\<open>tags or []\<close> and \<^verbatim>\<open>metadata or {}\<close> turn \<^verbatim>\<open>None\<close> into the empty
  value. The argument \<^verbatim>\<open>sample_id\<close> is an \<^verbatim>\<open>Optional[ObjectId]\<close>, so the \<^verbatim>\<open>isinstance\<close>
  test cannot fail; \<^verbatim>\<open>insert_one\<close> raises when the \<^verbatim>\<open>_id\<close> is already in the collection.
\<close>

definition create_sample ::
  "string \<Rightarrow> string option \<Rightarrow> ObjectId option \<Rightarrow> string list option \<Rightarrow>
   (string \<times> string) list option \<Rightarrow> database \<Rightarrow> (error + ObjectId) \<times> database" where
  "create_sample nm position sample_id tags metadata db =
     (case (case position of
              None \<Rightarrow> None
            | Some p \<Rightarrow>
                (case is_unoccupied_position db p of
                   Inl e \<Rightarrow> Some e
                 | Inr unoccupied \<Rightarrow>
                     if \<not> unoccupied then Some (ValueError (PositionNotEmpty p)) else None)) of
        Some e \<Rightarrow> (Inl e, db)
      | None \<Rightarrow>
          if has_reserved_char nm then (Inl (ValueError (UnsupportedSampleName nm)), db)
          else
            (let i = (case sample_id of Some i \<Rightarrow> i | None \<Rightarrow> new_ObjectId db) in
             if i \<in> set (map smp_id (sample_collection db)) then (Inl (DuplicateKeyError i), db)
             else (Inr i,
                   db\<lparr>sample_collection := sample_collection db @
                        [\<lparr>smp_id = i,
                          smp_name = nm,
                          smp_tags = (case tags of None \<Rightarrow> [] | Some ts \<Rightarrow> ts),
                          smp_metadata = (case metadata of None \<Rightarrow> [] | Some m \<Rightarrow> m),
                          smp_position = position,
                          smp_task_id = None\<rparr>]\<rparr>)))"

definition get_sample :: "database \<Rightarrow> ObjectId \<Rightarrow> error + sample_doc" where
  "get_sample db sample_id =
     (case find (\<lambda>s. smp_id s = sample_id) (sample_collection db) of
        None \<Rightarrow> Inl (ValueError (NoSampleFound sample_id))
      | Some result \<Rightarrow> Inr result)"

definition set_position :: "string option \<Rightarrow> sample_doc \<Rightarrow> sample_doc" where
  "set_position p s = s\<lparr>smp_position := p\<rparr>"

definition SampleView_move_sample ::
  "ObjectId \<Rightarrow> string option \<Rightarrow> database \<Rightarrow> (error + unit) \<times> database" where
  "SampleView_move_sample sample_id position db =
     (case find (\<lambda>s. smp_id s = sample_id) (sample_collection db) of
        None \<Rightarrow> (Inl (ValueError (CannotFindSample sample_id)), db)
      | Some result \<Rightarrow>
          if smp_position result = position then (Inr (), db)
          else
            (case (case position of
                     None \<Rightarrow> None
                   | Some p \<Rightarrow>
                       (case is_unoccupied_position db p of
                          Inl e \<Rightarrow> Some e
                        | Inr unoccupied \<Rightarrow>
                            if \<not> unoccupied
                            then Some (ValueError (PositionNotEmptyOrLocked p))
                            else None)) of
               Some e \<Rightarrow> (Inl e, db)
             | None \<Rightarrow>
                 (Inr (),
                  db\<lparr>sample_collection :=
                       update_one (\<lambda>s. smp_id s = sample_id) (set_position position)
                         (sample_collection db)\<rparr>)))"

section \<open>LabView\<close>

text \<open>\<^verbatim>\<open>LabView.move_sample\<close>; the first argument is \<^verbatim>\<open>self._task_id\<close>.\<close>

definition LabView_move_sample ::
  "ObjectId \<Rightarrow> ObjectId \<Rightarrow> string option \<Rightarrow> database \<Rightarrow> (error + unit) \<times> database" where
  "LabView_move_sample self_task_id sample_id position db =
     (case (case position of
              None \<Rightarrow> Inr ()
            | Some p \<Rightarrow>
                (case get_sample_position_status db p of
                   Inl e \<Rightarrow> Inl e
                 | Inr (status, current_task_id) \<Rightarrow>
                     if current_task_id \<noteq> Some self_task_id
                     then Inl (ValueError (MoveWithoutLocking p))
                     else Inr ())) of
        Inl e \<Rightarrow> (Inl e, db)
      | Inr u \<Rightarrow>
          (case get_sample db sample_id of
             Inl e \<Rightarrow> (Inl e, db)
           | Inr sample \<Rightarrow>
               if smp_task_id sample \<noteq> Some self_task_id
               then (Inl (ValueError SampleNotOfThisTask), db)
               else SampleView_move_sample sample_id position db))"

text \<open>
  \<^verbatim>\<open>LabView.request_resources\<close> is a generator under \<^verbatim>\<open>@contextmanager\<close>. It calls three
  collaborators whose code is not among the sources (\<^verbatim>\<open>TaskView\<close>, \<^verbatim>\<open>ResourceRequester\<close>,
  \<^verbatim>\<open>DevicesClient\<close>); they are parameters of the model, over any state \<open>'s\<close> they share.
  A device wrapper is the device's name. The dict the requester returns has the three
  keys the generator reads.
\<close>

datatype TaskStatus = REQUESTING_RESOURCES | RUNNING

record resources =
  devices :: "(string \<times> string) list"
  sample_positions :: grant
  request_id :: ObjectId

record ('s, 'q) LabView =
  self_task_id :: ObjectId
  task_view_update_status :: "ObjectId \<Rightarrow> TaskStatus \<Rightarrow> 's \<Rightarrow> 's"
  requester_request_resources :: "'q \<Rightarrow> 's \<Rightarrow> (error + resources) \<times> 's"
  requester_release_resources :: "ObjectId \<Rightarrow> 's \<Rightarrow> (error + unit) \<times> 's"

text \<open>The generator up to its \<^verbatim>\<open>yield\<close>: the yielded pair and the \<^verbatim>\<open>request_id\<close> it keeps.\<close>

definition request_resources_enter ::
  "('s, 'q) LabView \<Rightarrow> 'q \<Rightarrow> 's \<Rightarrow>
   (error + (((string \<times> string) list \<times> grant) \<times> ObjectId)) \<times> 's" where
  "request_resources_enter lv resource_request s =
     (case requester_request_resources lv resource_request
             (task_view_update_status lv (self_task_id lv) REQUESTING_RESOURCES s) of
        (Inl e, s') \<Rightarrow> (Inl e, s')
      | (Inr result, s') \<Rightarrow>
          (Inr ((devices result, sample_positions result), request_id result),
           task_view_update_status lv (self_task_id lv) RUNNING s'))"

text \<open>The generator after its \<^verbatim>\<open>yield\<close>.\<close>

definition request_resources_resume ::
  "('s, 'q) LabView \<Rightarrow> ObjectId \<Rightarrow> 's \<Rightarrow> (error + unit) \<times> 's" where
  "request_resources_resume lv rid s = requester_release_resources lv rid s"

text \<open>
  \<^verbatim>\<open>with lab_view.request_resources(resource_request) as (devices, sample_positions): body\<close>.
  When the body returns, \<^verbatim>\<open>__exit__\<close> resumes the generator, which runs the line after
  the \<^verbatim>\<open>yield\<close>. When the body raises, \<^verbatim>\<open>__exit__\<close> throws the exception into the generator
  at the \<^verbatim>\<open>yield\<close>; the \<^verbatim>\<open>yield\<close> stands in no \<^verbatim>\<open>try\<close> statement, so the exception leaves
  the generator there and the \<^verbatim>\<open>with\<close> statement re-raises it.
\<close>

definition with_request_resources ::
  "('s, 'q) LabView \<Rightarrow> 'q \<Rightarrow>
   ((string \<times> string) list \<times> grant \<Rightarrow> 's \<Rightarrow> (error + 'r) \<times> 's) \<Rightarrow> 's \<Rightarrow> (error + 'r) \<times> 's" where
  "with_request_resources lv resource_request body s =
     (case request_resources_enter lv resource_request s of
        (Inl e, s1) \<Rightarrow> (Inl e, s1)
      | (Inr (yielded, rid), s1) \<Rightarrow>
          (case body yielded s1 of
             (Inl e, s2) \<Rightarrow> (Inl e, s2)
           | (Inr r, s2) \<Rightarrow>
               (case request_resources_resume lv rid s2 of
                  (Inl e, s3) \<Rightarrow> (Inl e, s3)
                | (Inr u, s3) \<Rightarrow> (Inr r, s3))))"

section \<open>The collaborators, from the spec\<close>

text \<open>
  Modelled from the spec: the commit step of \<^verbatim>\<open>reserve\<close> ("set owner = taskId on every
  chosen position") and \<^verbatim>\<open>release(grant)\<close> ("unconditionally clears owner on every
  position in the grant"), which the task manager performs and which is not among the
  sources. They call \<^verbatim>\<open>lock_sample_position\<close> and \<^verbatim>\<open>release_sample_position\<close> for each
  position, in the order of the grant.
\<close>

fun occupy_sample_positions ::
  "ObjectId \<Rightarrow> string list \<Rightarrow> database \<Rightarrow> (error + unit) \<times> database" where
  "occupy_sample_positions t [] db = (Inr (), db)"
| "occupy_sample_positions t (p # ps) db =
     (case lock_sample_position t p db of
        (Inl e, db') \<Rightarrow> (Inl e, db')
      | (Inr u, db') \<Rightarrow> occupy_sample_positions t ps db')"

fun release_sample_positions :: "string list \<Rightarrow> database \<Rightarrow> (error + unit) \<times> database" where
  "release_sample_positions [] db = (Inr (), db)"
| "release_sample_positions (p # ps) db =
     (case release_sample_position p db of
        (Inl e, db') \<Rightarrow> (Inl e, db')
      | (Inr u, db') \<Rightarrow> release_sample_positions ps db')"

definition grant_names :: "grant \<Rightarrow> string list" where
  "grant_names g = concat (map (\<lambda>(p, ps). map name ps) g)"

text \<open>
  Modelled from the spec: the state the collaborators share (the ledger, the status of
  each task, the grants by request id), \<^verbatim>\<open>updateStatus(taskId, status)\<close>, and the
  resource requester in a run where no other task is active: a request the engine finds
  unsatisfiable waits until its timeout.
\<close>

record lab =
  ledger :: database
  task_status :: "(ObjectId \<times> TaskStatus) list"
  granted :: "(ObjectId \<times> grant) list"

definition update_status :: "ObjectId \<Rightarrow> TaskStatus \<Rightarrow> lab \<Rightarrow> lab" where
  "update_status t st s = s\<lparr>task_status := (t, st) # task_status s\<rparr>"

definition request_resources ::
  "ObjectId \<Rightarrow> sample_position_arg list \<Rightarrow> lab \<Rightarrow> (error + resources) \<times> lab" where
  "request_resources t resource_request s =
     (case request_sample_positions t resource_request (ledger s) of
        (Inl e, db) \<Rightarrow> (Inl e, s)
      | (Inr None, db) \<Rightarrow> (Inl TimeoutError, s)
      | (Inr (Some g), db) \<Rightarrow>
          (case occupy_sample_positions t (grant_names g) db of
             (Inl e, db') \<Rightarrow> (Inl e, s\<lparr>ledger := db'\<rparr>)
           | (Inr u, db') \<Rightarrow>
               (Inr \<lparr>devices = [], sample_positions = g, request_id = length (granted s)\<rparr>,
                s\<lparr>ledger := db', granted := granted s @ [(length (granted s), g)]\<rparr>)))"

definition release_resources :: "ObjectId \<Rightarrow> lab \<Rightarrow> (error + unit) \<times> lab" where
  "release_resources rid s =
     (case map_of (granted s) rid of
        None \<Rightarrow> (Inr (), s)
      | Some g \<Rightarrow>
          (case release_sample_positions (grant_names g) (ledger s) of
             (r, db') \<Rightarrow> (r, s\<lparr>ledger := db'\<rparr>)))"

definition lab_view :: "ObjectId \<Rightarrow> (lab, sample_position_arg list) LabView" where
  "lab_view t =
     \<lparr>self_task_id = t,
      task_view_update_status = update_status,
      requester_request_resources = request_resources t,
      requester_release_resources = release_resources\<rparr>"

section \<open>Auxiliary definitions and example ledgers\<close>

definition pos :: "string \<Rightarrow> ObjectId option \<Rightarrow> position_doc" where
  "pos n t = \<lparr>pos_name = n, pos_description = [], pos_task_id = t, pos_parent_device = None\<rparr>"

definition smp :: "ObjectId \<Rightarrow> string option \<Rightarrow> ObjectId option \<Rightarrow> sample_doc" where
  "smp i p t = \<lparr>smp_id = i, smp_name = ''s'', smp_tags = [], smp_metadata = [],
                smp_position = p, smp_task_id = t\<rparr>"

definition ex_status_db :: database where
  "ex_status_db = \<lparr>sample_positions_collection = [pos ''A'' (Some 2), pos ''B'' (Some 2), pos ''C'' None],
     sample_collection = [smp 1 (Some ''A'') (Some 7)]\<rparr>"

definition ex_lock_db :: database where
  "ex_lock_db = \<lparr>sample_positions_collection = [pos ''A'' None, pos ''B'' (Some 2)],
     sample_collection = [smp 1 (Some ''A'') (Some 1)]\<rparr>"

definition ex_move_db :: database where
  "ex_move_db = \<lparr>sample_positions_collection = [pos ''A'' None, pos ''B'' (Some 1), pos ''C'' (Some 2)],
     sample_collection = [smp 5 (Some ''A'') (Some 1), smp 6 None (Some 2), smp 8 None (Some 1)]\<rparr>"

text \<open>The names \<^verbatim>\<open>add_sample_positions_to_db\<close> generates, in the order of its two loops.\<close>

definition generated_names :: "SamplePosition list \<Rightarrow> string option \<Rightarrow> string list" where
  "generated_names sps parent_device_name =
     concat (map (\<lambda>sample_pos. map (position_name sample_pos parent_device_name)
                                   [0..<sp_number sample_pos]) sps)"

definition empty_db :: database where
  "empty_db = \<lparr>sample_positions_collection = [], sample_collection = []\<rparr>"

text \<open>
  The candidates of a prefix in the words of the spec (4.2, Prefix Matcher), to be
  compared with \<^verbatim>\<open>get_available_sample_position\<close>: "any position whose name starts with prefix
  and whose current owner is either unset or equal to taskId; for each, resolve status
  and include only if EMPTY or already owned by taskId; needRelease = true unless the
  position's stored owner already equals taskId".
\<close>

definition stored_owner :: "database \<Rightarrow> string \<Rightarrow> ObjectId option" where
  "stored_owner db n = (case get_sample_position db n of None \<Rightarrow> None | Some d \<Rightarrow> pos_task_id d)"

definition available_to :: "database \<Rightarrow> ObjectId \<Rightarrow> string \<Rightarrow> bool" where
  "available_to db t n =
     (case get_sample_position_status db n of
        Inl e \<Rightarrow> False
      | Inr (st, cur) \<Rightarrow> st = EMPTY \<or> cur = Some t)"

definition candidates :: "database \<Rightarrow> ObjectId \<Rightarrow> string \<Rightarrow> available_position list" where
  "candidates db t p =
     map (\<lambda>sp. \<lparr>name = pos_name sp, need_release = (stored_owner db (pos_name sp) \<noteq> Some t)\<rparr>)
       (filter (\<lambda>sp. regex_prefix p (pos_name sp) \<and>
                      (pos_task_id sp = None \<or> pos_task_id sp = Some t) \<and>
                      available_to db t (pos_name sp))
          (sample_positions_collection db))"

definition chosen :: "database \<Rightarrow> ObjectId \<Rightarrow> SamplePositionRequest \<Rightarrow> available_position list" where
  "chosen db t r =
     take (number r)
       (sort_key (\<lambda>task. (of_bool (need_release task) :: int)) (candidates db t (prefix r)))"

definition ex_reserve_db :: database where
  "ex_reserve_db = \<lparr>sample_positions_collection =
       [pos ''A1'' None, pos ''A2'' (Some 1), pos ''A3'' (Some 2), pos ''B1'' (Some 2)],
     sample_collection = []\<rparr>"

text \<open>The ledger in which the positions with a name in \<open>N\<close> are owned by task \<open>t\<close>.\<close>

definition lock_names :: "ObjectId \<Rightarrow> string set \<Rightarrow> database \<Rightarrow> database" where
  "lock_names t N db =
     db\<lparr>sample_positions_collection :=
          map (\<lambda>sp. if pos_name sp \<in> N then set_task_id (Some t) sp else sp)
            (sample_positions_collection db)\<rparr>"

definition ex_tray_db :: database where
  "ex_tray_db = \<lparr>sample_positions_collection =
       [pos ''oven/tray/1'' None, pos ''oven/tray/2'' None, pos ''oven/tray/3'' None,
        pos ''oven/tray/4'' None],
     sample_collection = []\<rparr>"

definition ex_tray_request :: "sample_position_arg list" where
  "ex_tray_request = [Req \<lparr>prefix = ''oven/tray'', number = 4\<rparr>]"

definition ex_lab :: lab where
  "ex_lab = \<lparr>ledger = \<lparr>sample_positions_collection = [pos ''A'' None], sample_collection = []\<rparr>,
             task_status = [], granted = []\<rparr>"

text \<open>Two bodies of a \<^verbatim>\<open>with\<close> block: one raises, one returns.\<close>

definition raising_body :: "(string \<times> string) list \<times> grant \<Rightarrow> lab \<Rightarrow> (error + unit) \<times> lab" where
  "raising_body yielded s = (Inl (BodyError ''failed''), s)"

definition returning_body :: "(string \<times> string) list \<times> grant \<Rightarrow> lab \<Rightarrow> (error + unit) \<times> lab" where
  "returning_body yielded s = (Inr (), s)"

section \<open>The occupancy resolver\<close>

lemma get_sample_position_None:
  "position \<notin> pos_name ` set (sample_positions_collection db) \<Longrightarrow> get_sample_position db position = None"
  by (auto simp: get_sample_position_def find_None_iff)

lemma get_sample_position_Some:
  "position \<in> pos_name ` set (sample_positions_collection db) \<Longrightarrow>
   \<exists>sp. get_sample_position db position = Some sp \<and> pos_name sp = position \<and>
        sp \<in> set (sample_positions_collection db)"
proof -
  assume "position \<in> pos_name ` set (sample_positions_collection db)"
  then have "find (\<lambda>sp. pos_name sp = position) (sample_positions_collection db) \<noteq> None"
    by (auto simp: find_None_iff)
  then obtain sp where f: "find (\<lambda>sp. pos_name sp = position) (sample_positions_collection db) = Some sp"
    by auto
  then have "pos_name sp = position \<and> sp \<in> set (sample_positions_collection db)"
    by (auto simp: find_Some_iff)
  with f show ?thesis by (simp add: get_sample_position_def)
qed

text \<open>
  Claim C3. For a name no position document has, \<^verbatim>\<open>get_sample_position_status\<close> raises
  \<^verbatim>\<open>ValueError\<close> ("Invalid sample position"). For a known name: if some sample document
  references the position, the result is \<^verbatim>\<open>OCCUPIED\<close> with the task id of such a sample,
  whatever the owner field of the position holds; if none does, the result is \<^verbatim>\<open>LOCKED\<close>
  with the owner when the position's owner field is set, and \<^verbatim>\<open>EMPTY\<close> with no task id
  when it is not.
\<close>

theorem status_by_occupancy:
  "(position \<notin> pos_name ` set (sample_positions_collection db) \<longrightarrow>
      get_sample_position_status db position = Inl (ValueError (InvalidSamplePosition position))) \<and>
   (position \<in> pos_name ` set (sample_positions_collection db) \<longrightarrow>
      ((\<exists>s \<in> set (sample_collection db). smp_position s = Some position) \<longrightarrow>
         (\<exists>s \<in> set (sample_collection db). smp_position s = Some position \<and>
            get_sample_position_status db position = Inr (OCCUPIED, smp_task_id s))) \<and>
      ((\<forall>s \<in> set (sample_collection db). smp_position s \<noteq> Some position) \<longrightarrow>
         (\<exists>sp \<in> set (sample_positions_collection db).
            get_sample_position db position = Some sp \<and> pos_name sp = position \<and>
            get_sample_position_status db position =
              (case pos_task_id sp of
                 Some t \<Rightarrow> Inr (LOCKED, Some t)
               | None \<Rightarrow> Inr (EMPTY, None)))))"
proof (intro conjI impI)
  assume "position \<notin> pos_name ` set (sample_positions_collection db)"
  then show "get_sample_position_status db position = Inl (ValueError (InvalidSamplePosition position))"
    by (simp add: get_sample_position_status_def get_sample_position_None)
next
  assume known: "position \<in> pos_name ` set (sample_positions_collection db)"
    and "\<exists>s \<in> set (sample_collection db). smp_position s = Some position"
  then have "find (\<lambda>s. smp_position s = Some position) (sample_collection db) \<noteq> None"
    by (auto simp: find_None_iff)
  then obtain s where f: "find (\<lambda>s. smp_position s = Some position) (sample_collection db) = Some s"
    by auto
  then have s: "s \<in> set (sample_collection db)" "smp_position s = Some position"
    by (auto simp: find_Some_iff)
  from get_sample_position_Some [OF known] obtain sp where "get_sample_position db position = Some sp"
    by blast
  with f have "get_sample_position_status db position = Inr (OCCUPIED, smp_task_id s)"
    by (simp add: get_sample_position_status_def)
  with s show "\<exists>s \<in> set (sample_collection db). smp_position s = Some position \<and>
            get_sample_position_status db position = Inr (OCCUPIED, smp_task_id s)"
    by blast
next
  assume known: "position \<in> pos_name ` set (sample_positions_collection db)"
    and "\<forall>s \<in> set (sample_collection db). smp_position s \<noteq> Some position"
  then have f: "find (\<lambda>s. smp_position s = Some position) (sample_collection db) = None"
    by (auto simp: find_None_iff)
  from get_sample_position_Some [OF known] obtain sp where
    sp: "get_sample_position db position = Some sp" "pos_name sp = position"
      "sp \<in> set (sample_positions_collection db)"
    by blast
  with f have "get_sample_position_status db position =
      (case pos_task_id sp of Some t \<Rightarrow> Inr (LOCKED, Some t) | None \<Rightarrow> Inr (EMPTY, None))"
    by (simp add: get_sample_position_status_def)
  with sp show "\<exists>sp \<in> set (sample_positions_collection db).
            get_sample_position db position = Some sp \<and> pos_name sp = position \<and>
            get_sample_position_status db position =
              (case pos_task_id sp of
                 Some t \<Rightarrow> Inr (LOCKED, Some t)
               | None \<Rightarrow> Inr (EMPTY, None))"
    by blast
qed

theorem status_by_occupancy_witness:
  "get_sample_position_status ex_status_db ''A'' = Inr (OCCUPIED, Some 7) \<and>
   get_sample_position_status ex_status_db ''B'' = Inr (LOCKED, Some 2) \<and>
   get_sample_position_status ex_status_db ''C'' = Inr (EMPTY, None) \<and>
   get_sample_position_status ex_status_db ''D'' = Inl (ValueError (InvalidSamplePosition ''D''))"
  using status_by_occupancy [of "''A''" ex_status_db] status_by_occupancy [of "''B''" ex_status_db]
    status_by_occupancy [of "''C''" ex_status_db] status_by_occupancy [of "''D''" ex_status_db]
  by (simp add: ex_status_db_def pos_def smp_def get_sample_position_def)

section \<open>Locking one position\<close>

lemma find_update_one_same:
  "(\<And>x. P x \<Longrightarrow> P (f x)) \<Longrightarrow> find P (update_one P f xs) = map_option f (find P xs)"
  by (induction xs) auto

lemma find_update_one_other:
  "(\<And>x. P x \<Longrightarrow> \<not> Q x \<and> \<not> Q (f x)) \<Longrightarrow> find Q (update_one P f xs) = find Q xs"
  by (induction xs) auto

lemma update_one_id:
  "find P xs = Some x \<Longrightarrow> f x = x \<Longrightarrow> update_one P f xs = xs"
  by (induction xs) (auto split: if_splits)

lemma pos_name_set_task_id [simp]: "pos_name (set_task_id t sp) = pos_name sp"
  by (simp add: set_task_id_def)

lemma status_Inr_known:
  "get_sample_position_status db position = Inr (st, cur) \<Longrightarrow>
   \<exists>sp. get_sample_position db position = Some sp"
  by (auto simp: get_sample_position_status_def split: option.splits)

text \<open>
  Claim C5, as amended. \<^verbatim>\<open>lock_sample_position\<close> compares the task with the task id the
  occupancy resolver reports: the occupying sample's task id when the position is
  \<^verbatim>\<open>OCCUPIED\<close>, the stored owner otherwise. When the two differ it raises \<^verbatim>\<open>ValueError\<close> for
  an \<^verbatim>\<open>OCCUPIED\<close> position and for a \<^verbatim>\<open>LOCKED\<close> one, and leaves the ledger as it was. When
  they agree, or the position is \<^verbatim>\<open>EMPTY\<close>, it sets the owner of the position to the task
  and changes no other position and no sample. When the stored owner already is the
  task, the ledger after the call is the ledger before it.
\<close>

theorem lock_sample_position_cases:
  assumes "get_sample_position_status db position = Inr (st, cur)"
  shows "(cur \<noteq> Some t \<and> st = OCCUPIED \<longrightarrow>
            lock_sample_position t position db = (Inl (ValueError (PositionOccupied position)), db)) \<and>
         (cur \<noteq> Some t \<and> st = LOCKED \<longrightarrow>
            lock_sample_position t position db = (Inl (ValueError (PositionLocked cur)), db)) \<and>
         (cur = Some t \<or> st = EMPTY \<longrightarrow>
            (\<exists>db' sp. lock_sample_position t position db = (Inr (), db') \<and>
               sample_collection db' = sample_collection db \<and>
               get_sample_position db position = Some sp \<and>
               get_sample_position db' position = Some (sp\<lparr>pos_task_id := Some t\<rparr>) \<and>
               (\<forall>q. q \<noteq> position \<longrightarrow> get_sample_position db' q = get_sample_position db q))) \<and>
         ((\<exists>sp. get_sample_position db position = Some sp \<and> pos_task_id sp = Some t) \<longrightarrow>
            snd (lock_sample_position t position db) = db)"
proof (intro conjI impI)
  assume "cur \<noteq> Some t \<and> st = OCCUPIED"
  with assms show "lock_sample_position t position db = (Inl (ValueError (PositionOccupied position)), db)"
    by (simp add: lock_sample_position_def)
next
  assume "cur \<noteq> Some t \<and> st = LOCKED"
  with assms show "lock_sample_position t position db = (Inl (ValueError (PositionLocked cur)), db)"
    by (simp add: lock_sample_position_def)
next
  assume ok: "cur = Some t \<or> st = EMPTY"
  let ?db' = "db\<lparr>sample_positions_collection :=
                 update_one (\<lambda>sp. pos_name sp = position) (set_task_id (Some t))
                   (sample_positions_collection db)\<rparr>"
  from status_Inr_known [OF assms] obtain sp where sp: "get_sample_position db position = Some sp"
    by blast
  from ok assms have l: "lock_sample_position t position db = (Inr (), ?db')"
    by (cases st) (auto simp: lock_sample_position_def)
  have same: "get_sample_position ?db' position = Some (sp\<lparr>pos_task_id := Some t\<rparr>)"
    using sp by (simp add: get_sample_position_def find_update_one_same set_task_id_def)
  have other: "\<forall>q. q \<noteq> position \<longrightarrow> get_sample_position ?db' q = get_sample_position db q"
  proof (intro allI impI)
    fix q assume "q \<noteq> position"
    then have "find (\<lambda>sp. pos_name sp = q)
          (update_one (\<lambda>sp. pos_name sp = position) (set_task_id (Some t))
             (sample_positions_collection db)) =
        find (\<lambda>sp. pos_name sp = q) (sample_positions_collection db)"
      by (intro find_update_one_other) auto
    then show "get_sample_position ?db' q = get_sample_position db q"
      by (simp add: get_sample_position_def)
  qed
  from l sp same other
  show "\<exists>db' sp. lock_sample_position t position db = (Inr (), db') \<and>
               sample_collection db' = sample_collection db \<and>
               get_sample_position db position = Some sp \<and>
               get_sample_position db' position = Some (sp\<lparr>pos_task_id := Some t\<rparr>) \<and>
               (\<forall>q. q \<noteq> position \<longrightarrow> get_sample_position db' q = get_sample_position db q)"
    by (intro exI [of _ ?db'] exI [of _ sp]) simp
next
  assume "\<exists>sp. get_sample_position db position = Some sp \<and> pos_task_id sp = Some t"
  then obtain sp where sp: "get_sample_position db position = Some sp" "pos_task_id sp = Some t"
    by blast
  then have "update_one (\<lambda>sp. pos_name sp = position) (set_task_id (Some t))
               (sample_positions_collection db) = sample_positions_collection db"
    by (intro update_one_id [of _ _ sp]) (simp_all add: get_sample_position_def set_task_id_def)
  then show "snd (lock_sample_position t position db) = db"
    using assms by (simp add: lock_sample_position_def)
qed

theorem lock_sample_position_cases_witness:
  "lock_sample_position 1 ''B'' ex_lock_db = (Inl (ValueError (PositionLocked (Some 2))), ex_lock_db) \<and>
   lock_sample_position 2 ''A'' ex_lock_db = (Inl (ValueError (PositionOccupied ''A'')), ex_lock_db) \<and>
   lock_sample_position 2 ''B'' ex_lock_db = (Inr (), ex_lock_db)"
  using lock_sample_position_cases [of ex_lock_db "''B''" LOCKED "Some 2" 1]
    lock_sample_position_cases [of ex_lock_db "''A''" OCCUPIED "Some 1" 2]
    lock_sample_position_cases [of ex_lock_db "''B''" LOCKED "Some 2" 2]
  by (simp add: ex_lock_db_def pos_def smp_def get_sample_position_def
      get_sample_position_status_def lock_sample_position_def set_task_id_def)

text \<open>
  Claim C5 as stated fails: position \<open>A\<close> is \<^verbatim>\<open>OCCUPIED\<close> by a sample of task 1 and has no
  stored owner; task 1 locks it without an error, and the owner becomes task 1.
\<close>

theorem lock_occupied_counterexample:
  "get_sample_position_status ex_lock_db ''A'' = Inr (OCCUPIED, Some 1) \<and>
   get_sample_position ex_lock_db ''A'' = Some (pos ''A'' None) \<and>
   lock_sample_position 1 ''A'' ex_lock_db =
     (Inr (), \<lparr>sample_positions_collection = [pos ''A'' (Some 1), pos ''B'' (Some 2)],
               sample_collection = [smp 1 (Some ''A'') (Some 1)]\<rparr>)"
  by (simp add: ex_lock_db_def pos_def smp_def get_sample_position_def
      get_sample_position_status_def lock_sample_position_def set_task_id_def)

section \<open>Moving a sample\<close>

lemma smp_id_set_position [simp]: "smp_id (set_position p s) = smp_id s"
  by (simp add: set_position_def)

lemma status_task_id_cases:
  "get_sample_position_status db p = Inr (st, Some t) \<Longrightarrow> st = OCCUPIED \<or> st = LOCKED"
  by (auto simp: get_sample_position_status_def split: option.splits)

lemma get_sample_after_move:
  assumes "get_sample db sid = Inr s"
  shows "get_sample (db\<lparr>sample_collection :=
             update_one (\<lambda>s. smp_id s = sid) (set_position position) (sample_collection db)\<rparr>) sid =
           Inr (s\<lparr>smp_position := position\<rparr>)"
proof -
  from assms have "find (\<lambda>s. smp_id s = sid) (sample_collection db) = Some s"
    by (auto simp: get_sample_def split: option.splits)
  then show ?thesis
    by (simp add: get_sample_def find_update_one_same set_position_def)
qed

lemma get_sample_other_after_move:
  assumes "i \<noteq> sid"
  shows "get_sample (db\<lparr>sample_collection :=
             update_one (\<lambda>s. smp_id s = sid) (set_position position) (sample_collection db)\<rparr>) i =
           get_sample db i"
proof -
  from assms have "find (\<lambda>s. smp_id s = i)
        (update_one (\<lambda>s. smp_id s = sid) (set_position position) (sample_collection db)) =
      find (\<lambda>s. smp_id s = i) (sample_collection db)"
    by (intro find_update_one_other) auto
  then show ?thesis by (simp add: get_sample_def)
qed

text \<open>
  Claim C7, as amended. \<^verbatim>\<open>LabView.move_sample\<close> raises \<^verbatim>\<open>ValueError\<close> and leaves the ledger
  as it was when the destination is a name no position has; when the destination is
  given and the task id the occupancy resolver reports for it is not the caller's (it is
  locked by another task, occupied by a sample of another task or of none, or empty);
  when no sample has the id; when the sample's task is not the caller's; and when the
  destination is occupied by a sample of the caller's task and is not the position the
  moved sample already has. When the sample already is at the destination, the call
  returns and changes nothing, also when the destination is a position the sample
  itself occupies. Otherwise (no destination, or one locked by the caller) it sets the
  position of the sample and changes no other sample and no position.
\<close>

theorem LabView_move_sample_cases:
  "(position = Some p \<and> get_sample_position_status db p = Inl e \<longrightarrow>
      LabView_move_sample t sid position db = (Inl e, db)) \<and>
   (position = Some p \<and> get_sample_position_status db p = Inr (st, cur) \<and> cur \<noteq> Some t \<longrightarrow>
      LabView_move_sample t sid position db = (Inl (ValueError (MoveWithoutLocking p)), db)) \<and>
   ((position = None \<or> position = Some p \<and> get_sample_position_status db p = Inr (st, Some t)) \<longrightarrow>
      (get_sample db sid = Inl e \<longrightarrow> LabView_move_sample t sid position db = (Inl e, db)) \<and>
      (get_sample db sid = Inr s \<and> smp_task_id s \<noteq> Some t \<longrightarrow>
         LabView_move_sample t sid position db = (Inl (ValueError SampleNotOfThisTask), db)) \<and>
      (get_sample db sid = Inr s \<and> smp_task_id s = Some t \<and> smp_position s = position \<longrightarrow>
         LabView_move_sample t sid position db = (Inr (), db)) \<and>
      (get_sample db sid = Inr s \<and> smp_task_id s = Some t \<and> smp_position s \<noteq> position \<and>
       position = Some p \<and> st = OCCUPIED \<longrightarrow>
         LabView_move_sample t sid position db =
           (Inl (ValueError (PositionNotEmptyOrLocked p)), db)) \<and>
      (get_sample db sid = Inr s \<and> smp_task_id s = Some t \<and> smp_position s \<noteq> position \<and>
       (position = None \<or> st = LOCKED) \<longrightarrow>
         (\<exists>db'. LabView_move_sample t sid position db = (Inr (), db') \<and>
            sample_positions_collection db' = sample_positions_collection db \<and>
            get_sample db' sid = Inr (s\<lparr>smp_position := position\<rparr>) \<and>
            (\<forall>i. i \<noteq> sid \<longrightarrow> get_sample db' i = get_sample db i))))"
proof (intro conjI impI)
  assume "position = Some p \<and> get_sample_position_status db p = Inl e"
  then show "LabView_move_sample t sid position db = (Inl e, db)"
    by (simp add: LabView_move_sample_def)
next
  assume "position = Some p \<and> get_sample_position_status db p = Inr (st, cur) \<and> cur \<noteq> Some t"
  then show "LabView_move_sample t sid position db = (Inl (ValueError (MoveWithoutLocking p)), db)"
    by (simp add: LabView_move_sample_def)
next
  assume "position = None \<or> position = Some p \<and> get_sample_position_status db p = Inr (st, Some t)"
    and "get_sample db sid = Inl e"
  then show "LabView_move_sample t sid position db = (Inl e, db)"
    by (auto simp: LabView_move_sample_def)
next
  assume "position = None \<or> position = Some p \<and> get_sample_position_status db p = Inr (st, Some t)"
    and "get_sample db sid = Inr s \<and> smp_task_id s \<noteq> Some t"
  then show "LabView_move_sample t sid position db = (Inl (ValueError SampleNotOfThisTask), db)"
    by (auto simp: LabView_move_sample_def)
next
  assume d: "position = None \<or> position = Some p \<and> get_sample_position_status db p = Inr (st, Some t)"
    and s: "get_sample db sid = Inr s \<and> smp_task_id s = Some t \<and> smp_position s = position"
  then have "find (\<lambda>s. smp_id s = sid) (sample_collection db) = Some s"
    by (auto simp: get_sample_def split: option.splits)
  with d s show "LabView_move_sample t sid position db = (Inr (), db)"
    by (auto simp: LabView_move_sample_def SampleView_move_sample_def)
next
  assume d: "position = None \<or> position = Some p \<and> get_sample_position_status db p = Inr (st, Some t)"
    and s: "get_sample db sid = Inr s \<and> smp_task_id s = Some t \<and> smp_position s \<noteq> position \<and>
       position = Some p \<and> st = OCCUPIED"
  then have "find (\<lambda>s. smp_id s = sid) (sample_collection db) = Some s"
    by (auto simp: get_sample_def split: option.splits)
  with d s show "LabView_move_sample t sid position db =
           (Inl (ValueError (PositionNotEmptyOrLocked p)), db)"
    by (auto simp: LabView_move_sample_def SampleView_move_sample_def is_unoccupied_position_def)
next
  assume d: "position = None \<or> position = Some p \<and> get_sample_position_status db p = Inr (st, Some t)"
    and s: "get_sample db sid = Inr s \<and> smp_task_id s = Some t \<and> smp_position s \<noteq> position \<and>
       (position = None \<or> st = LOCKED)"
  let ?db' = "db\<lparr>sample_collection :=
             update_one (\<lambda>s. smp_id s = sid) (set_position position) (sample_collection db)\<rparr>"
  from s have f: "find (\<lambda>s. smp_id s = sid) (sample_collection db) = Some s"
    by (auto simp: get_sample_def split: option.splits)
  from d s have "position = None \<or> position = Some p \<and> get_sample_position_status db p = Inr (LOCKED, Some t)"
    by auto
  with f s have m: "LabView_move_sample t sid position db = (Inr (), ?db')"
    by (auto simp: LabView_move_sample_def SampleView_move_sample_def is_unoccupied_position_def)
  from s have g: "get_sample ?db' sid = Inr (s\<lparr>smp_position := position\<rparr>)"
    by (intro get_sample_after_move) simp
  have o: "\<forall>i. i \<noteq> sid \<longrightarrow> get_sample ?db' i = get_sample db i"
    by (intro allI impI get_sample_other_after_move)
  from m g o
  show "\<exists>db'. LabView_move_sample t sid position db = (Inr (), db') \<and>
            sample_positions_collection db' = sample_positions_collection db \<and>
            get_sample db' sid = Inr (s\<lparr>smp_position := position\<rparr>) \<and>
            (\<forall>i. i \<noteq> sid \<longrightarrow> get_sample db' i = get_sample db i)"
    by (intro exI [of _ ?db']) simp
qed

theorem LabView_move_sample_cases_witness:
  "LabView_move_sample 1 5 (Some ''D'') ex_move_db =
     (Inl (ValueError (InvalidSamplePosition ''D'')), ex_move_db) \<and>
   LabView_move_sample 1 5 (Some ''C'') ex_move_db =
     (Inl (ValueError (MoveWithoutLocking ''C'')), ex_move_db) \<and>
   LabView_move_sample 1 7 None ex_move_db = (Inl (ValueError (NoSampleFound 7)), ex_move_db) \<and>
   LabView_move_sample 1 6 (Some ''B'') ex_move_db =
     (Inl (ValueError SampleNotOfThisTask), ex_move_db) \<and>
   LabView_move_sample 2 6 None ex_move_db = (Inr (), ex_move_db) \<and>
   LabView_move_sample 1 8 (Some ''A'') ex_move_db =
     (Inl (ValueError (PositionNotEmptyOrLocked ''A'')), ex_move_db) \<and>
   get_sample (snd (LabView_move_sample 1 5 (Some ''B'') ex_move_db)) 5 =
     Inr (smp 5 (Some ''B'') (Some 1))"
  using LabView_move_sample_cases [of "Some ''D''" "''D''" ex_move_db "ValueError (InvalidSamplePosition ''D'')" 1 5]
    LabView_move_sample_cases [of "Some ''C''" "''C''" ex_move_db _ 1 5 LOCKED "Some 2"]
    LabView_move_sample_cases [of None _ ex_move_db "ValueError (NoSampleFound 7)" 1 7]
    LabView_move_sample_cases [of "Some ''B''" "''B''" ex_move_db _ 1 6 LOCKED _ "smp 6 None (Some 2)"]
    LabView_move_sample_cases [of None _ ex_move_db _ 2 6 _ _ "smp 6 None (Some 2)"]
    LabView_move_sample_cases [of "Some ''A''" "''A''" ex_move_db _ 1 8 OCCUPIED _ "smp 8 None (Some 1)"]
    LabView_move_sample_cases [of "Some ''B''" "''B''" ex_move_db _ 1 5 LOCKED _ "smp 5 (Some ''A'') (Some 1)"]
  by (simp add: ex_move_db_def pos_def smp_def get_sample_position_def
      get_sample_position_status_def get_sample_def LabView_move_sample_def
      SampleView_move_sample_def is_unoccupied_position_def set_position_def)

text \<open>
  Claim C7 as stated fails: position \<open>A\<close> is \<^verbatim>\<open>OCCUPIED\<close> (by sample 5, of task 1), and
  task 1 moving sample 5 to \<open>A\<close> returns without an error.
\<close>

theorem move_to_occupied_counterexample:
  "get_sample_position_status ex_move_db ''A'' = Inr (OCCUPIED, Some 1) \<and>
   LabView_move_sample 1 5 (Some ''A'') ex_move_db = (Inr (), ex_move_db)"
  by (simp add: ex_move_db_def pos_def smp_def get_sample_position_def
      get_sample_position_status_def get_sample_def LabView_move_sample_def
      SampleView_move_sample_def)

section \<open>Creating samples and positions\<close>

lemma fold_max_ge: "(a::nat) \<le> fold max xs a"
proof (induction xs arbitrary: a)
  case Nil
  show ?case by simp
next
  case (Cons x xs)
  have "a \<le> max x a" by simp
  also have "max x a \<le> fold max xs (max x a)" by (rule Cons.IH)
  finally show ?case by simp
qed

lemma fold_max_ge_elem: "x \<in> set xs \<Longrightarrow> (x::nat) \<le> fold max xs a"
proof (induction xs arbitrary: a)
  case Nil
  then show ?case by simp
next
  case (Cons y ys)
  show ?case
  proof (cases "x = y")
    case True
    have "x \<le> max y a" using True by simp
    also have "max y a \<le> fold max ys (max y a)" by (rule fold_max_ge)
    finally show ?thesis by simp
  next
    case False
    with Cons.prems have "x \<in> set ys" by simp
    then show ?thesis using Cons.IH by simp
  qed
qed

lemma new_ObjectId_fresh: "new_ObjectId db \<notin> smp_id ` set (sample_collection db)"
proof
  assume "new_ObjectId db \<in> smp_id ` set (sample_collection db)"
  then have "new_ObjectId db \<in> set (map smp_id (sample_collection db))" by simp
  then have "new_ObjectId db \<le> fold max (map smp_id (sample_collection db)) 0"
    by (rule fold_max_ge_elem)
  then show False by (simp add: new_ObjectId_def)
qed

lemma unreferenced_is_unoccupied:
  assumes "p \<in> pos_name ` set (sample_positions_collection db)"
    and "\<forall>s \<in> set (sample_collection db). smp_position s \<noteq> Some p"
  shows "is_unoccupied_position db p = Inr True"
proof -
  from assms(2) have "find (\<lambda>s. smp_position s = Some p) (sample_collection db) = None"
    by (auto simp: find_None_iff)
  moreover from get_sample_position_Some [OF assms(1)] obtain sp where
    "get_sample_position db p = Some sp" by blast
  ultimately show ?thesis
    by (simp add: is_unoccupied_position_def get_sample_position_status_def split: option.splits)
qed

text \<open>
  Claim C10, as amended. For a position that exists and that no sample references,
  \<^verbatim>\<open>create_sample\<close> never raises for the position, whatever its owner field holds (no
  task, the caller's, another task's). It then raises \<^verbatim>\<open>ValueError\<close> when the name
  contains \<open>.\<close> or \<open>$\<close>, the store raises when a sample id is given that is taken, and
  otherwise the call succeeds: the sample it appends is at the position and has no
  owning task.
\<close>

theorem create_sample_at_unreferenced_position:
  assumes "p \<in> pos_name ` set (sample_positions_collection db)"
    and "\<forall>s \<in> set (sample_collection db). smp_position s \<noteq> Some p"
  shows "fst (create_sample nm (Some p) sample_id tags metadata db) \<noteq>
           Inl (ValueError (PositionNotEmpty p)) \<and>
         fst (create_sample nm (Some p) sample_id tags metadata db) \<noteq>
           Inl (ValueError (InvalidSamplePosition p)) \<and>
         (has_reserved_char nm \<longrightarrow>
            create_sample nm (Some p) sample_id tags metadata db =
              (Inl (ValueError (UnsupportedSampleName nm)), db)) \<and>
         (\<not> has_reserved_char nm \<and> sample_id = Some i \<and>
          i \<in> smp_id ` set (sample_collection db) \<longrightarrow>
            create_sample nm (Some p) sample_id tags metadata db = (Inl (DuplicateKeyError i), db)) \<and>
         (\<not> has_reserved_char nm \<and>
          (case sample_id of None \<Rightarrow> True | Some i \<Rightarrow> i \<notin> smp_id ` set (sample_collection db)) \<longrightarrow>
            (\<exists>i. create_sample nm (Some p) sample_id tags metadata db =
               (Inr i,
                db\<lparr>sample_collection := sample_collection db @
                     [\<lparr>smp_id = i, smp_name = nm,
                       smp_tags = (case tags of None \<Rightarrow> [] | Some ts \<Rightarrow> ts),
                       smp_metadata = (case metadata of None \<Rightarrow> [] | Some m \<Rightarrow> m),
                       smp_position = Some p, smp_task_id = None\<rparr>]\<rparr>)))"
proof -
  note u = unreferenced_is_unoccupied [OF assms]
  have a: "fst (create_sample nm (Some p) sample_id tags metadata db) \<noteq>
           Inl (ValueError (PositionNotEmpty p))"
    using u by (simp add: create_sample_def Let_def)
  have b: "fst (create_sample nm (Some p) sample_id tags metadata db) \<noteq>
           Inl (ValueError (InvalidSamplePosition p))"
    using u by (simp add: create_sample_def Let_def)
  have r: "create_sample nm (Some p) sample_id tags metadata db =
              (Inl (ValueError (UnsupportedSampleName nm)), db)"
    if "has_reserved_char nm"
    using u that by (simp add: create_sample_def)
  have k: "create_sample nm (Some p) sample_id tags metadata db = (Inl (DuplicateKeyError i), db)"
    if "\<not> has_reserved_char nm \<and> sample_id = Some i \<and>
          i \<in> smp_id ` set (sample_collection db)"
    using u that by (simp add: create_sample_def)
  have c: "\<exists>i. create_sample nm (Some p) sample_id tags metadata db =
               (Inr i,
                db\<lparr>sample_collection := sample_collection db @
                     [\<lparr>smp_id = i, smp_name = nm,
                       smp_tags = (case tags of None \<Rightarrow> [] | Some ts \<Rightarrow> ts),
                       smp_metadata = (case metadata of None \<Rightarrow> [] | Some m \<Rightarrow> m),
                       smp_position = Some p, smp_task_id = None\<rparr>]\<rparr>)"
    if ok: "\<not> has_reserved_char nm \<and>
          (case sample_id of None \<Rightarrow> True | Some i \<Rightarrow> i \<notin> smp_id ` set (sample_collection db))"
  proof (cases sample_id)
    case None
    with u ok new_ObjectId_fresh [of db] show ?thesis
      by (simp add: create_sample_def Let_def)
  next
    case (Some i)
    with u ok show ?thesis
      by (simp add: create_sample_def Let_def)
  qed
  from a b r k c show ?thesis by blast
qed

theorem create_sample_at_unreferenced_position_witness:
  "create_sample ''s'' (Some ''B'') None None None ex_move_db =
     (Inr 9, ex_move_db\<lparr>sample_collection := sample_collection ex_move_db @
                [smp 9 (Some ''B'') None]\<rparr>) \<and>
   create_sample ''s'' (Some ''C'') (Some 12) None None ex_move_db =
     (Inr 12, ex_move_db\<lparr>sample_collection := sample_collection ex_move_db @
                [smp 12 (Some ''C'') None]\<rparr>) \<and>
   create_sample ''s'' (Some ''C'') (Some 5) None None ex_move_db =
     (Inl (DuplicateKeyError 5), ex_move_db) \<and>
   create_sample ''s$'' (Some ''C'') None None None ex_move_db =
     (Inl (ValueError (UnsupportedSampleName ''s$'')), ex_move_db) \<and>
   get_sample_position ex_move_db ''C'' = Some (pos ''C'' (Some 2))"
  using create_sample_at_unreferenced_position [of "''B''" ex_move_db "''s''" None None None]
    create_sample_at_unreferenced_position [of "''C''" ex_move_db "''s''" "Some 12" None None]
    create_sample_at_unreferenced_position [of "''C''" ex_move_db "''s''" "Some 5" None None 5]
    create_sample_at_unreferenced_position [of "''C''" ex_move_db "''s$''" None None None]
  by (simp add: ex_move_db_def pos_def smp_def has_reserved_char_def new_ObjectId_def
      get_sample_position_def create_sample_def is_unoccupied_position_def
      get_sample_position_status_def Let_def)

text \<open>
  Claim C10 as stated fails: position \<open>B\<close> exists, is \<^verbatim>\<open>LOCKED\<close> and no sample references
  it, yet \<^verbatim>\<open>create_sample\<close> with the name \<open>a.b\<close> raises.
\<close>

theorem create_sample_reserved_name_counterexample:
  "get_sample_position_status ex_move_db ''B'' = Inr (LOCKED, Some 1) \<and>
   create_sample ''a.b'' (Some ''B'') None None None ex_move_db =
     (Inl (ValueError (UnsupportedSampleName ''a.b'')), ex_move_db)"
  by (simp add: ex_move_db_def pos_def smp_def has_reserved_char_def
      get_sample_position_def create_sample_def is_unoccupied_position_def
      get_sample_position_status_def)

lemma get_sample_position_Some_name:
  "get_sample_position db n = Some sp \<Longrightarrow> n \<in> pos_name ` set (sample_positions_collection db)"
  by (auto simp: get_sample_position_def find_Some_iff)

lemma get_sample_position_None_iff:
  "get_sample_position db n = None \<longleftrightarrow> n \<notin> pos_name ` set (sample_positions_collection db)"
  by (auto simp: get_sample_position_def find_None_iff)

lemma add_numbered_positions_result:
  "add_numbered_positions sample_pos parent is db = (r, db') \<Longrightarrow>
   r = (case dropWhile (\<lambda>n. \<not> has_reserved_char n) (map (position_name sample_pos parent) is) of
          [] \<Rightarrow> Inr ()
        | n # rest \<Rightarrow> Inl (ValueError (UnsupportedPositionName n))) \<and>
   sample_collection db' = sample_collection db \<and>
   pos_name ` set (sample_positions_collection db') =
     pos_name ` set (sample_positions_collection db) \<union>
     set (takeWhile (\<lambda>n. \<not> has_reserved_char n) (map (position_name sample_pos parent) is)) \<and>
   (\<exists>ys. sample_positions_collection db' = sample_positions_collection db @ ys) \<and>
   (set (takeWhile (\<lambda>n. \<not> has_reserved_char n) (map (position_name sample_pos parent) is))
      \<subseteq> pos_name ` set (sample_positions_collection db) \<longrightarrow> db' = db)"
proof (induction "is" arbitrary: db)
  case Nil
  then show ?case by simp
next
  case (Cons i rest)
  let ?n = "position_name sample_pos parent i"
  show ?case
  proof (cases "has_reserved_char ?n")
    case True
    with Cons.prems show ?thesis by simp
  next
    case False
    show ?thesis
    proof (cases "get_sample_position db ?n")
      case None
      let ?db1 = "db\<lparr>sample_positions_collection := sample_positions_collection db @
                       [\<lparr>pos_name = ?n,
                         pos_description = sp_description sample_pos,
                         pos_task_id = None,
                         pos_parent_device = (if truthy parent then parent else None)\<rparr>]\<rparr>"
      from Cons.prems False None
      have "add_numbered_positions sample_pos parent rest ?db1 = (r, db')" by simp
      from Cons.IH [OF this] None False show ?thesis
        by (auto simp: get_sample_position_None_iff)
    next
      case (Some sp)
      with Cons.prems False
      have "add_numbered_positions sample_pos parent rest db = (r, db')" by simp
      from Cons.IH [OF this] False get_sample_position_Some_name [OF Some] show ?thesis
        by auto
    qed
  qed
qed

lemma add_sample_positions_to_db_result:
  "add_sample_positions_to_db sps parent db = (r, db') \<Longrightarrow>
   r = (case dropWhile (\<lambda>n. \<not> has_reserved_char n) (generated_names sps parent) of
          [] \<Rightarrow> Inr ()
        | n # rest \<Rightarrow> Inl (ValueError (UnsupportedPositionName n))) \<and>
   sample_collection db' = sample_collection db \<and>
   pos_name ` set (sample_positions_collection db') =
     pos_name ` set (sample_positions_collection db) \<union>
     set (takeWhile (\<lambda>n. \<not> has_reserved_char n) (generated_names sps parent)) \<and>
   (\<exists>ys. sample_positions_collection db' = sample_positions_collection db @ ys) \<and>
   (set (takeWhile (\<lambda>n. \<not> has_reserved_char n) (generated_names sps parent))
      \<subseteq> pos_name ` set (sample_positions_collection db) \<longrightarrow> db' = db)"
proof (induction sps arbitrary: db)
  case Nil
  then show ?case by (simp add: generated_names_def)
next
  case (Cons sample_pos rest)
  let ?ns = "map (position_name sample_pos parent) [0..<sp_number sample_pos]"
  let ?valid = "\<lambda>n. \<not> has_reserved_char n"
  have gen: "generated_names (sample_pos # rest) parent = ?ns @ generated_names rest parent"
    by (simp add: generated_names_def)
  obtain r1 db1 where inner:
    "add_numbered_positions sample_pos parent [0..<sp_number sample_pos] db = (r1, db1)"
    by (cases "add_numbered_positions sample_pos parent [0..<sp_number sample_pos] db")
  note i = add_numbered_positions_result [OF inner]
  show ?case
  proof (cases "dropWhile ?valid ?ns")
    case Nil
    then have "\<forall>x \<in> set ?ns. \<not> has_reserved_char x"
      by (simp only: dropWhile_eq_Nil_conv)
    then have all: "\<And>x. x \<in> set ?ns \<Longrightarrow> \<not> has_reserved_char x"
      by blast
    from i Nil have r1: "r1 = Inr ()" by simp
    with Cons.prems inner have "add_sample_positions_to_db rest parent db1 = (r, db')" by simp
    note o = Cons.IH [OF this]
    have t: "takeWhile ?valid (?ns @ generated_names rest parent) =
          ?ns @ takeWhile ?valid (generated_names rest parent)"
      using all by (intro takeWhile_append2) blast
    have d: "dropWhile ?valid (?ns @ generated_names rest parent) =
          dropWhile ?valid (generated_names rest parent)"
      using all by (intro dropWhile_append2) blast
    have tn: "takeWhile ?valid ?ns = ?ns"
      using all by (intro takeWhile_eq_all_conv [THEN iffD2]) blast
    from i o show ?thesis
      unfolding gen t d tn by auto
  next
    case (Cons n ns')
    then have "dropWhile ?valid ?ns \<noteq> []" by simp
    then obtain x where x: "x \<in> set ?ns" "\<not> ?valid x"
      by (auto simp: dropWhile_eq_Nil_conv)
    from i Cons have r1: "r1 = Inl (ValueError (UnsupportedPositionName n))" by simp
    with Cons.prems inner have res: "r = r1" "db' = db1" by auto
    have t: "takeWhile ?valid (?ns @ generated_names rest parent) = takeWhile ?valid ?ns"
      using x by (intro takeWhile_append1) 
    have d: "dropWhile ?valid (?ns @ generated_names rest parent) =
          dropWhile ?valid ?ns @ generated_names rest parent"
      using x by (intro dropWhile_append1)
    from i r1 res Cons show ?thesis
      unfolding gen t d by simp
  qed
qed

lemma is_unoccupied_position_error:
  "is_unoccupied_position db p = Inl e \<Longrightarrow> e = ValueError (InvalidSamplePosition p)"
  by (auto simp: is_unoccupied_position_def get_sample_position_status_def
      split: option.splits sum.splits)

text \<open>
  Claim C8, as amended. \<^verbatim>\<open>create_sample\<close> with a name that contains \<open>.\<close> or \<open>$\<close> raises
  \<^verbatim>\<open>ValueError\<close> and leaves the ledger as it was. \<^verbatim>\<open>add_sample_positions_to_db\<close> checks each
  name it generates right before it inserts it: at the first generated name \<open>n\<close> that
  contains \<open>.\<close> or \<open>$\<close> it raises \<^verbatim>\<open>ValueError\<close>; no sample is written, the positions that
  were in the ledger stay, and the names of the ledger then are the old ones and the
  names \<open>good\<close> generated before \<open>n\<close>. When these all were in the ledger already (so when
  \<open>n\<close> is the first name generated), the ledger is left as it was.
\<close>

theorem reserved_character_rejected:
  "(has_reserved_char nm \<longrightarrow>
      (\<exists>e. create_sample nm position sample_id tags metadata db = (Inl (ValueError e), db))) \<and>
   (generated_names sps parent = good @ n # rest \<and>
    (\<forall>g \<in> set good. \<not> has_reserved_char g) \<and> has_reserved_char n \<longrightarrow>
      (\<exists>db'. add_sample_positions_to_db sps parent db =
                (Inl (ValueError (UnsupportedPositionName n)), db') \<and>
         sample_collection db' = sample_collection db \<and>
         pos_name ` set (sample_positions_collection db') =
           pos_name ` set (sample_positions_collection db) \<union> set good \<and>
         (\<exists>ys. sample_positions_collection db' = sample_positions_collection db @ ys) \<and>
         (set good \<subseteq> pos_name ` set (sample_positions_collection db) \<longrightarrow> db' = db)))"
proof (intro conjI impI)
  assume bad: "has_reserved_char nm"
  show "\<exists>e. create_sample nm position sample_id tags metadata db = (Inl (ValueError e), db)"
  proof (cases position)
    case None
    with bad show ?thesis by (simp add: create_sample_def)
  next
    case (Some p)
    show ?thesis
    proof (cases "is_unoccupied_position db p")
      case (Inl e)
      with is_unoccupied_position_error [OF Inl] Some show ?thesis
        by (simp add: create_sample_def)
    next
      case (Inr b)
      with Some bad show ?thesis by (simp add: create_sample_def)
    qed
  qed
next
  let ?valid = "\<lambda>n. \<not> has_reserved_char n"
  assume a: "generated_names sps parent = good @ n # rest \<and>
    (\<forall>g \<in> set good. \<not> has_reserved_char g) \<and> has_reserved_char n"
  then have t: "takeWhile ?valid (generated_names sps parent) = good"
    by (simp add: takeWhile_append2)
  from a have d: "dropWhile ?valid (generated_names sps parent) = n # rest"
    by (simp add: dropWhile_append2)
  obtain r db' where res: "add_sample_positions_to_db sps parent db = (r, db')"
    by (cases "add_sample_positions_to_db sps parent db")
  from add_sample_positions_to_db_result [OF res] res
  show "\<exists>db'. add_sample_positions_to_db sps parent db =
                (Inl (ValueError (UnsupportedPositionName n)), db') \<and>
         sample_collection db' = sample_collection db \<and>
         pos_name ` set (sample_positions_collection db') =
           pos_name ` set (sample_positions_collection db) \<union> set good \<and>
         (\<exists>ys. sample_positions_collection db' = sample_positions_collection db @ ys) \<and>
         (set good \<subseteq> pos_name ` set (sample_positions_collection db) \<longrightarrow> db' = db)"
    unfolding t d by (intro exI [of _ db']) simp
qed

theorem reserved_character_rejected_witness:
  "create_sample ''a.b'' None None None None empty_db =
     (Inl (ValueError (UnsupportedSampleName ''a.b'')), empty_db) \<and>
   add_sample_positions_to_db [\<lparr>sp_name = ''a$b'', sp_number = 1, sp_description = []\<rparr>] None empty_db =
     (Inl (ValueError (UnsupportedPositionName ''a$b'')), empty_db)"
  using reserved_character_rejected [of "''a.b''" None None None None empty_db
      "[\<lparr>sp_name = ''a$b'', sp_number = 1, sp_description = []\<rparr>]" None "[]" "''a$b''" "[]"]
  by (simp add: empty_db_def has_reserved_char_def create_sample_def generated_names_def
      position_name_def)

text \<open>
  Claim C8 as stated fails for \<^verbatim>\<open>add_sample_positions_to_db\<close>: called on an empty ledger for
  the positions \<open>tray\<close> and \<open>a.b\<close>, it raises for \<open>a.b\<close> after it has inserted \<open>tray\<close>.
\<close>

theorem add_sample_positions_counterexample:
  "add_sample_positions_to_db
     [\<lparr>sp_name = ''tray'', sp_number = 1, sp_description = []\<rparr>,
      \<lparr>sp_name = ''a.b'', sp_number = 1, sp_description = []\<rparr>] None empty_db =
   (Inl (ValueError (UnsupportedPositionName ''a.b'')),
    \<lparr>sample_positions_collection = [pos ''tray'' None], sample_collection = []\<rparr>)"
  by (simp add: empty_db_def pos_def has_reserved_char_def position_name_def
      get_sample_position_def)

section \<open>The reservation engine\<close>

lemma status_of_known:
  "get_sample_position db n = Some d \<Longrightarrow>
   \<exists>st cur. get_sample_position_status db n = Inr (st, cur)"
  by (simp add: get_sample_position_status_def split: option.splits)

lemma available_sp_names_eq:
  "set xs \<subseteq> set (sample_positions_collection db) \<Longrightarrow>
   available_sp_names db t xs =
     Inr (map (\<lambda>sp. \<lparr>name = pos_name sp, need_release = (stored_owner db (pos_name sp) \<noteq> Some t)\<rparr>)
            (filter (\<lambda>sp. available_to db t (pos_name sp)) xs))"
proof (induction xs)
  case Nil
  show ?case by simp
next
  case (Cons sp xs)
  then have "pos_name sp \<in> pos_name ` set (sample_positions_collection db)" by auto
  from get_sample_position_Some [OF this] obtain d where
    d: "get_sample_position db (pos_name sp) = Some d" by blast
  from status_of_known [OF this] obtain st cur where
    st: "get_sample_position_status db (pos_name sp) = Inr (st, cur)"
    by blast
  from Cons have ih: "available_sp_names db t xs =
     Inr (map (\<lambda>sp. \<lparr>name = pos_name sp, need_release = (stored_owner db (pos_name sp) \<noteq> Some t)\<rparr>)
            (filter (\<lambda>sp. available_to db t (pos_name sp)) xs))"
    by simp
  show ?case
    using d st ih by (auto simp: available_to_def stored_owner_def)
qed

lemma get_available_sample_position_eq:
  "get_available_sample_position db t p =
     (if \<exists>sp \<in> set (sample_positions_collection db). regex_prefix p (pos_name sp)
      then Inr (candidates db t p)
      else Inl (ValueError (CannotFindDevice p)))"
proof (cases "\<exists>sp \<in> set (sample_positions_collection db). regex_prefix p (pos_name sp)")
  case True
  then have "find (\<lambda>sp. regex_prefix p (pos_name sp)) (sample_positions_collection db) \<noteq> None"
    by (auto simp: find_None_iff)
  moreover have "available_sp_names db t
             (filter (\<lambda>sp. regex_prefix p (pos_name sp) \<and>
                            (pos_task_id sp = None \<or> pos_task_id sp = Some t))
                (sample_positions_collection db)) = Inr (candidates db t p)"
    by (subst available_sp_names_eq) (auto simp: candidates_def conj_commute conj_left_commute cong: conj_cong)
  ultimately show ?thesis using True
    by (simp add: get_available_sample_position_def)
next
  case False
  then have "find (\<lambda>sp. regex_prefix p (pos_name sp)) (sample_positions_collection db) = None"
    by (auto simp: find_None_iff)
  with False show ?thesis by (simp add: get_available_sample_position_def)
qed

lemma matches_iff_count:
  "(\<exists>sp \<in> set (sample_positions_collection db). regex_prefix p (pos_name sp)) \<longleftrightarrow>
   0 < count_documents db p"
  by (auto simp: count_documents_def filter_empty_conv)

lemma available_positions_eq:
  "\<forall>r \<in> set reqs. 0 < count_documents db (prefix r) \<Longrightarrow>
   available_positions db t reqs =
     Inr (if \<forall>r \<in> set reqs. candidates db t (prefix r) \<noteq> [] \<and>
                number r \<le> length (candidates db t (prefix r))
          then Some (map (\<lambda>r. (prefix r, chosen db t r)) reqs)
          else None)"
proof (induction reqs)
  case Nil
  show ?case by simp
next
  case (Cons r reqs)
  then have m: "\<exists>sp \<in> set (sample_positions_collection db). regex_prefix (prefix r) (pos_name sp)"
    by (simp add: matches_iff_count)
  from Cons have ih: "available_positions db t reqs =
     Inr (if \<forall>r \<in> set reqs. candidates db t (prefix r) \<noteq> [] \<and>
                number r \<le> length (candidates db t (prefix r))
          then Some (map (\<lambda>r. (prefix r, chosen db t r)) reqs)
          else None)"
    by simp
  show ?case
    using m ih by (auto simp: get_available_sample_position_eq chosen_def)
qed

lemma sample_positions_request_Req: "sample_positions_request (map Req reqs) = Inr reqs"
  by (induction reqs) auto

lemma check_enough_positions_ok:
  "\<forall>r \<in> set reqs. number r \<le> count_documents db (prefix r) \<Longrightarrow>
   check_enough_positions db reqs = Inr ()"
  by (induction reqs) auto

lemma check_enough_positions_fails:
  "\<exists>r \<in> set reqs. count_documents db (prefix r) < number r \<Longrightarrow>
   \<exists>r \<in> set reqs. count_documents db (prefix r) < number r \<and>
     check_enough_positions db reqs =
       Inl (ValueError (NotEnoughMatches (prefix r) (count_documents db (prefix r)) (number r)))"
  by (induction reqs) auto

lemma duplicated_iff: "length xs \<noteq> length (remdups xs) \<longleftrightarrow> \<not> distinct xs"
  by (metis length_remdups_eq remdups_id_iff_distinct)

lemma request_sample_positions_ledger:
  "snd (request_sample_positions t args db) = db"
  by (simp add: request_sample_positions_def split: sum.splits)

lemma available_positions_Some:
  "available_positions db t reqs = Inr (Some g) \<Longrightarrow>
   g = map (\<lambda>r. (prefix r, chosen db t r)) reqs \<and>
   (\<forall>r \<in> set reqs. candidates db t (prefix r) \<noteq> [] \<and>
      number r \<le> length (candidates db t (prefix r)))"
proof (induction reqs arbitrary: g)
  case Nil
  then show ?case by simp
next
  case (Cons r reqs)
  from Cons.prems obtain g' where
    r: "get_available_sample_position db t (prefix r) = Inr (candidates db t (prefix r))"
      "candidates db t (prefix r) \<noteq> []" "number r \<le> length (candidates db t (prefix r))"
    and g': "available_positions db t reqs = Inr (Some g')"
      "g = (prefix r, chosen db t r) # g'"
    by (auto simp: get_available_sample_position_eq chosen_def
        split: if_splits sum.splits option.splits)
  from Cons.IH [OF g'(1)] r g'(2) show ?case by simp
qed

lemma candidate_properties:
  assumes "c \<in> set (candidates db t p)"
  shows "\<exists>d st cur. get_sample_position db (name c) = Some d \<and>
           get_sample_position_status db (name c) = Inr (st, cur) \<and>
           (st = EMPTY \<or> cur = Some t) \<and>
           need_release c = (pos_task_id d \<noteq> Some t) \<and> regex_prefix p (name c)"
proof -
  from assms obtain sp where sp: "sp \<in> set (sample_positions_collection db)"
    "regex_prefix p (pos_name sp)" "available_to db t (pos_name sp)"
    and c: "c = \<lparr>name = pos_name sp, need_release = (stored_owner db (pos_name sp) \<noteq> Some t)\<rparr>"
    by (auto simp: candidates_def)
  from sp(1) have "pos_name sp \<in> pos_name ` set (sample_positions_collection db)" by simp
  from get_sample_position_Some [OF this] obtain d where
    d: "get_sample_position db (pos_name sp) = Some d" by blast
  from status_of_known [OF d] obtain st cur where
    st: "get_sample_position_status db (pos_name sp) = Inr (st, cur)" by blast
  with sp(3) have "st = EMPTY \<or> cur = Some t" by (simp add: available_to_def)
  with d st sp(2) c show ?thesis by (simp add: stored_owner_def)
qed

text \<open>
  Claim C9. When no position name starts with the prefix, \<^verbatim>\<open>get_available_sample_position\<close>
  raises \<^verbatim>\<open>ValueError\<close> ("Cannot find device with prefix") and returns no list. So
  \<^verbatim>\<open>request_sample_positions\<close> for that prefix with number 0 passes the count check and
  raises that error from inside the locked section; it returns neither an empty grant
  nor \<^verbatim>\<open>None\<close>. (With a number above 0 the count check raises first.)
\<close>

theorem no_match_raises:
  assumes "\<forall>sp \<in> set (sample_positions_collection db). \<not> regex_prefix p (pos_name sp)"
  shows "get_available_sample_position db t p = Inl (ValueError (CannotFindDevice p)) \<and>
         request_sample_positions t [Req \<lparr>prefix = p, number = 0\<rparr>] db =
           (Inl (ValueError (CannotFindDevice p)), db) \<and>
         (0 < n \<longrightarrow> request_sample_positions t [Req \<lparr>prefix = p, number = n\<rparr>] db =
           (Inl (ValueError (NotEnoughMatches p 0 n)), db))"
proof -
  from assms have a: "get_available_sample_position db t p = Inl (ValueError (CannotFindDevice p))"
    by (simp add: get_available_sample_position_eq)
  from assms have c: "count_documents db p = 0"
    by (simp add: count_documents_def filter_empty_conv)
  from a c show ?thesis
    by (simp add: request_sample_positions_def)
qed

theorem no_match_raises_witness:
  "get_available_sample_position ex_reserve_db 1 ''Z'' = Inl (ValueError (CannotFindDevice ''Z'')) \<and>
   request_sample_positions 1 [Req \<lparr>prefix = ''Z'', number = 0\<rparr>] ex_reserve_db =
     (Inl (ValueError (CannotFindDevice ''Z'')), ex_reserve_db) \<and>
   request_sample_positions 1 [Req \<lparr>prefix = ''Z'', number = 2\<rparr>] ex_reserve_db =
     (Inl (ValueError (NotEnoughMatches ''Z'' 0 2)), ex_reserve_db)"
  using no_match_raises [of ex_reserve_db "''Z''" 1 2]
  by (simp add: ex_reserve_db_def pos_def regex_prefix_def)

text \<open>
  Claim C2, as amended. \<^verbatim>\<open>request_sample_positions\<close> writes nothing: when it returns a
  grant, the ledger is the one it was given. The grant lists the requested prefixes in
  order, each with as many positions as requested. Every position in it exists, has a
  name that starts with the prefix, and is \<^verbatim>\<open>EMPTY\<close> or has the requesting task as the
  task id the occupancy resolver reports; its \<^verbatim>\<open>need_release\<close> flag is true exactly when
  the stored owner is not the requesting task. Setting the owner is left to the caller.
\<close>

theorem request_sample_positions_grant:
  assumes "request_sample_positions t args db = (Inr (Some g), db')"
  shows "db' = db \<and>
         (\<exists>reqs. sample_positions_request args = Inr reqs \<and>
            map (\<lambda>x. (fst x, length (snd x))) g = map (\<lambda>r. (prefix r, number r)) reqs) \<and>
         (\<forall>x \<in> set g. \<forall>c \<in> set (snd x).
            \<exists>d st cur. get_sample_position db (name c) = Some d \<and>
              get_sample_position_status db (name c) = Inr (st, cur) \<and>
              (st = EMPTY \<or> cur = Some t) \<and>
              need_release c = (pos_task_id d \<noteq> Some t) \<and> regex_prefix (fst x) (name c))"
proof -
  from assms obtain reqs where reqs: "sample_positions_request args = Inr reqs"
    by (cases "sample_positions_request args") (simp_all add: request_sample_positions_def)
  from assms reqs have dup: "length reqs = length (remdups (map prefix reqs))"
    by (cases "length reqs = length (remdups (map prefix reqs))")
      (simp_all add: request_sample_positions_def)
  from assms reqs dup have "check_enough_positions db reqs = Inr ()"
    by (cases "check_enough_positions db reqs") (simp_all add: request_sample_positions_def)
  with assms reqs dup have "available_positions db t reqs = Inr (Some g) \<and> db' = db"
    by (auto simp: request_sample_positions_def)
  then have av: "available_positions db t reqs = Inr (Some g)" and db: "db' = db"
    by blast+
  note g = available_positions_Some [OF av]
  have len: "map (\<lambda>x. (fst x, length (snd x))) g = map (\<lambda>r. (prefix r, number r)) reqs"
    using g by (auto simp: chosen_def comp_def min_def)
  have props: "\<exists>d st cur. get_sample_position db (name c) = Some d \<and>
              get_sample_position_status db (name c) = Inr (st, cur) \<and>
              (st = EMPTY \<or> cur = Some t) \<and>
              need_release c = (pos_task_id d \<noteq> Some t) \<and> regex_prefix (fst x) (name c)"
    if x: "x \<in> set g" and c: "c \<in> set (snd x)" for x c
  proof -
    from x g obtain r where r: "x = (prefix r, chosen db t r)" by auto
    with c have "c \<in> set (take (number r)
        (sort_key (\<lambda>task. (of_bool (need_release task) :: int)) (candidates db t (prefix r))))"
      by (simp add: chosen_def)
    then have "c \<in> set (sort_key (\<lambda>task. (of_bool (need_release task) :: int))
        (candidates db t (prefix r)))"
      by (rule in_set_takeD)
    then have "c \<in> set (candidates db t (prefix r))" by simp
    from candidate_properties [OF this] r show ?thesis by simp
  qed
  from db reqs len props show ?thesis by blast
qed

theorem request_sample_positions_grant_witness:
  "request_sample_positions 1 [Str ''A''] ex_reserve_db =
     (Inr (Some [(''A'', [\<lparr>name = ''A2'', need_release = False\<rparr>])]), ex_reserve_db) \<and>
   get_sample_position_status ex_reserve_db ''A2'' = Inr (LOCKED, Some 1)"
  using request_sample_positions_grant [of 1 "[Str ''A'']" ex_reserve_db
      "[(''A'', [\<lparr>name = ''A2'', need_release = False\<rparr>])]" ex_reserve_db]
  by (simp add: ex_reserve_db_def pos_def regex_prefix_def request_sample_positions_def
      count_documents_def get_available_sample_position_def get_sample_position_status_def
      get_sample_position_def)

text \<open>
  Claim C2 as stated fails: task 1 is granted position \<open>A1\<close>, and when
  \<^verbatim>\<open>request_sample_positions\<close> has returned the stored owner of \<open>A1\<close> still is none.
\<close>

theorem request_sets_no_owner_counterexample:
  "request_sample_positions 1 [Req \<lparr>prefix = ''A1'', number = 1\<rparr>] ex_reserve_db =
     (Inr (Some [(''A1'', [\<lparr>name = ''A1'', need_release = True\<rparr>])]), ex_reserve_db) \<and>
   map_option pos_task_id
     (get_sample_position
        (snd (request_sample_positions 1 [Req \<lparr>prefix = ''A1'', number = 1\<rparr>] ex_reserve_db))
        ''A1'') = Some None"
  by (simp add: ex_reserve_db_def pos_def regex_prefix_def request_sample_positions_def
      count_documents_def get_available_sample_position_def get_sample_position_status_def
      get_sample_position_def)

lemma available_positions_None:
  assumes "\<forall>q \<in> set pre. 0 < count_documents db (prefix q)"
    and "get_available_sample_position db t (prefix r) = Inr cs"
    and "length cs < number r"
  shows "available_positions db t (pre @ r # post) = Inr None"
  using assms(1)
proof (induction pre)
  case Nil
  from assms(2,3) show ?case by simp
next
  case (Cons q pre)
  then have "\<exists>sp \<in> set (sample_positions_collection db). regex_prefix (prefix q) (pos_name sp)"
    by (simp add: matches_iff_count)
  then have q: "get_available_sample_position db t (prefix q) = Inr (candidates db t (prefix q))"
    by (simp add: get_available_sample_position_eq)
  from Cons have "available_positions db t (pre @ r # post) = Inr None" by simp
  with q show ?case by simp
qed

lemma available_positions_raises:
  assumes "\<forall>q \<in> set pre. \<exists>cs. get_available_sample_position db t (prefix q) = Inr cs \<and>
             cs \<noteq> [] \<and> number q \<le> length cs"
    and "count_documents db (prefix z) = 0"
  shows "available_positions db t (pre @ z # post) = Inl (ValueError (CannotFindDevice (prefix z)))"
  using assms(1)
proof (induction pre)
  case Nil
  from assms(2) have "\<not> (\<exists>sp \<in> set (sample_positions_collection db).
      regex_prefix (prefix z) (pos_name sp))"
    by (simp add: matches_iff_count)
  then show ?case by (simp add: get_available_sample_position_eq)
next
  case (Cons q pre)
  then obtain cs where q: "get_available_sample_position db t (prefix q) = Inr cs"
    "cs \<noteq> []" "number q \<le> length cs"
    by auto
  from Cons have "available_positions db t (pre @ z # post) =
      Inl (ValueError (CannotFindDevice (prefix z)))" by simp
  with q show ?case by simp
qed

text \<open>
  Claim C4, as amended. \<^verbatim>\<open>request_sample_positions\<close> raises \<^verbatim>\<open>ValueError\<close> ("Duplicated
  sample_positions") when two items have the same prefix. With distinct prefixes, when
  for some item fewer position names start with the prefix than requested, it raises
  \<^verbatim>\<open>ValueError\<close> ("can only have ... matches") for such an item, from the loop that runs
  before the locked section. When every prefix has enough names and the candidate query
  yields fewer positions than requested for an item \<open>r\<close>, it returns \<^verbatim>\<open>None\<close>, provided
  every item before \<open>r\<close> in the request has a prefix some position name starts with.
  When instead an item \<open>z\<close> whose prefix no position name starts with comes first, all
  items before it being satisfiable, the candidate query raises \<^verbatim>\<open>ValueError\<close> for \<open>z\<close>.
  In every case the ledger is left as it was.
\<close>

theorem request_sample_positions_failures:
  "(\<not> distinct (map prefix reqs) \<longrightarrow>
      request_sample_positions t (map Req reqs) db =
        (Inl (ValueError DuplicatedSamplePositions), db)) \<and>
   (distinct (map prefix reqs) \<and>
    (\<exists>r \<in> set reqs. count_documents db (prefix r) < number r) \<longrightarrow>
      (\<exists>r \<in> set reqs. count_documents db (prefix r) < number r \<and>
         request_sample_positions t (map Req reqs) db =
           (Inl (ValueError (NotEnoughMatches (prefix r) (count_documents db (prefix r))
                   (number r))), db))) \<and>
   (distinct (map prefix reqs) \<and>
    (\<forall>r \<in> set reqs. number r \<le> count_documents db (prefix r)) \<and>
    reqs = pre @ r # post \<and>
    (\<forall>q \<in> set pre. 0 < count_documents db (prefix q)) \<and>
    get_available_sample_position db t (prefix r) = Inr cs \<and> length cs < number r \<longrightarrow>
      request_sample_positions t (map Req reqs) db = (Inr None, db)) \<and>
   (distinct (map prefix reqs) \<and>
    (\<forall>r \<in> set reqs. number r \<le> count_documents db (prefix r)) \<and>
    reqs = pre @ z # post \<and>
    (\<forall>q \<in> set pre. \<exists>cs. get_available_sample_position db t (prefix q) = Inr cs \<and>
        cs \<noteq> [] \<and> number q \<le> length cs) \<and>
    count_documents db (prefix z) = 0 \<longrightarrow>
      request_sample_positions t (map Req reqs) db =
        (Inl (ValueError (CannotFindDevice (prefix z))), db)) \<and>
   snd (request_sample_positions t args db) = db"
proof (intro conjI impI)
  assume "\<not> distinct (map prefix reqs)"
  then have "length reqs \<noteq> length (remdups (map prefix reqs))"
    using duplicated_iff [of "map prefix reqs"] by simp
  then show "request_sample_positions t (map Req reqs) db =
        (Inl (ValueError DuplicatedSamplePositions), db)"
    by (simp add: request_sample_positions_def sample_positions_request_Req)
next
  assume a: "distinct (map prefix reqs) \<and>
    (\<exists>r \<in> set reqs. count_documents db (prefix r) < number r)"
  then have d: "length reqs = length (remdups (map prefix reqs))"
    using duplicated_iff [of "map prefix reqs"] by simp
  from a check_enough_positions_fails [of reqs db] obtain r where
    r: "r \<in> set reqs" "count_documents db (prefix r) < number r"
      "check_enough_positions db reqs =
         Inl (ValueError (NotEnoughMatches (prefix r) (count_documents db (prefix r)) (number r)))"
    by blast
  from d r(3) have "request_sample_positions t (map Req reqs) db =
           (Inl (ValueError (NotEnoughMatches (prefix r) (count_documents db (prefix r))
                   (number r))), db)"
    by (simp add: request_sample_positions_def sample_positions_request_Req)
  with r show "\<exists>r \<in> set reqs. count_documents db (prefix r) < number r \<and>
         request_sample_positions t (map Req reqs) db =
           (Inl (ValueError (NotEnoughMatches (prefix r) (count_documents db (prefix r))
                   (number r))), db)"
    by blast
next
  assume a: "distinct (map prefix reqs) \<and>
    (\<forall>r \<in> set reqs. number r \<le> count_documents db (prefix r)) \<and>
    reqs = pre @ r # post \<and>
    (\<forall>q \<in> set pre. 0 < count_documents db (prefix q)) \<and>
    get_available_sample_position db t (prefix r) = Inr cs \<and> length cs < number r"
  then have "distinct (map prefix reqs)" by blast
  then have d: "length reqs = length (remdups (map prefix reqs))"
    using duplicated_iff [of "map prefix reqs"] by simp
  from a have c: "check_enough_positions db reqs = Inr ()"
    by (intro check_enough_positions_ok) blast
  from a have "available_positions db t (pre @ r # post) = Inr None"
    by (intro available_positions_None [of pre db t r cs]) simp_all
  with a have "available_positions db t reqs = Inr None" by simp
  with d c show "request_sample_positions t (map Req reqs) db = (Inr None, db)"
    by (simp add: request_sample_positions_def sample_positions_request_Req)
next
  assume a: "distinct (map prefix reqs) \<and>
    (\<forall>r \<in> set reqs. number r \<le> count_documents db (prefix r)) \<and>
    reqs = pre @ z # post \<and>
    (\<forall>q \<in> set pre. \<exists>cs. get_available_sample_position db t (prefix q) = Inr cs \<and>
        cs \<noteq> [] \<and> number q \<le> length cs) \<and>
    count_documents db (prefix z) = 0"
  then have "distinct (map prefix reqs)" by blast
  then have d: "length reqs = length (remdups (map prefix reqs))"
    using duplicated_iff [of "map prefix reqs"] by simp
  from a have c: "check_enough_positions db reqs = Inr ()"
    by (intro check_enough_positions_ok) blast
  from a have "available_positions db t (pre @ z # post) =
      Inl (ValueError (CannotFindDevice (prefix z)))"
    by (intro available_positions_raises) simp_all
  with a have "available_positions db t reqs = Inl (ValueError (CannotFindDevice (prefix z)))"
    by simp
  with d c show "request_sample_positions t (map Req reqs) db =
        (Inl (ValueError (CannotFindDevice (prefix z))), db)"
    by (simp add: request_sample_positions_def sample_positions_request_Req)
next
  show "snd (request_sample_positions t args db) = db"
    by (rule request_sample_positions_ledger)
qed

theorem request_sample_positions_failures_witness:
  "request_sample_positions 1
     [Req \<lparr>prefix = ''A'', number = 1\<rparr>, Req \<lparr>prefix = ''A'', number = 2\<rparr>] ex_reserve_db =
     (Inl (ValueError DuplicatedSamplePositions), ex_reserve_db) \<and>
   request_sample_positions 1
     [Req \<lparr>prefix = ''A'', number = 1\<rparr>, Req \<lparr>prefix = ''B'', number = 2\<rparr>] ex_reserve_db =
     (Inl (ValueError (NotEnoughMatches ''B'' 1 2)), ex_reserve_db) \<and>
   request_sample_positions 1
     [Req \<lparr>prefix = ''A'', number = 1\<rparr>, Req \<lparr>prefix = ''B'', number = 1\<rparr>] ex_reserve_db =
     (Inr None, ex_reserve_db) \<and>
   request_sample_positions 1
     [Req \<lparr>prefix = ''B'', number = 1\<rparr>, Req \<lparr>prefix = ''Z'', number = 0\<rparr>] ex_reserve_db =
     (Inr None, ex_reserve_db) \<and>
   request_sample_positions 1
     [Req \<lparr>prefix = ''A'', number = 2\<rparr>, Req \<lparr>prefix = ''Z'', number = 0\<rparr>,
      Req \<lparr>prefix = ''B'', number = 1\<rparr>] ex_reserve_db =
     (Inl (ValueError (CannotFindDevice ''Z'')), ex_reserve_db)"
  using request_sample_positions_failures
      [where reqs = "[\<lparr>prefix = ''A'', number = 1\<rparr>, \<lparr>prefix = ''A'', number = 2\<rparr>]"
         and t = 1 and db = ex_reserve_db]
    request_sample_positions_failures
      [where reqs = "[\<lparr>prefix = ''A'', number = 1\<rparr>, \<lparr>prefix = ''B'', number = 2\<rparr>]"
         and t = 1 and db = ex_reserve_db]
    request_sample_positions_failures
      [where reqs = "[\<lparr>prefix = ''A'', number = 1\<rparr>, \<lparr>prefix = ''B'', number = 1\<rparr>]"
         and t = 1 and db = ex_reserve_db and pre = "[\<lparr>prefix = ''A'', number = 1\<rparr>]"
         and r = "\<lparr>prefix = ''B'', number = 1\<rparr>" and post = "[]" and cs = "[]"]
    request_sample_positions_failures
      [where reqs = "[\<lparr>prefix = ''B'', number = 1\<rparr>, \<lparr>prefix = ''Z'', number = 0\<rparr>]"
         and t = 1 and db = ex_reserve_db and pre = "[]"
         and r = "\<lparr>prefix = ''B'', number = 1\<rparr>"
         and post = "[\<lparr>prefix = ''Z'', number = 0\<rparr>]" and cs = "[]"]
    request_sample_positions_failures
      [where reqs = "[\<lparr>prefix = ''A'', number = 2\<rparr>, \<lparr>prefix = ''Z'', number = 0\<rparr>,
            \<lparr>prefix = ''B'', number = 1\<rparr>]"
         and t = 1 and db = ex_reserve_db and pre = "[\<lparr>prefix = ''A'', number = 2\<rparr>]"
         and z = "\<lparr>prefix = ''Z'', number = 0\<rparr>"
         and post = "[\<lparr>prefix = ''B'', number = 1\<rparr>]"]
  by (simp add: ex_reserve_db_def pos_def regex_prefix_def request_sample_positions_def
      count_documents_def get_available_sample_position_def get_sample_position_status_def
      get_sample_position_def)

text \<open>
  Claim C4 as stated fails: every prefix has as many names as requested, and prefix \<open>B\<close>
  has no candidate for task 1 where one is requested, yet the call raises (for prefix
  \<open>Z\<close>, which comes first and has no name) and does not return \<^verbatim>\<open>None\<close>.
\<close>

theorem unsatisfiable_raises_counterexample:
  "count_documents ex_reserve_db ''Z'' = 0 \<and> count_documents ex_reserve_db ''B'' = 1 \<and>
   get_available_sample_position ex_reserve_db 1 ''B'' = Inr [] \<and>
   request_sample_positions 1
     [Req \<lparr>prefix = ''Z'', number = 0\<rparr>, Req \<lparr>prefix = ''B'', number = 1\<rparr>] ex_reserve_db =
     (Inl (ValueError (CannotFindDevice ''Z'')), ex_reserve_db)"
  by (simp add: ex_reserve_db_def pos_def regex_prefix_def request_sample_positions_def
      count_documents_def get_available_sample_position_def get_sample_position_status_def
      get_sample_position_def)

section \<open>Requesting again what the task holds\<close>

lemma update_one_distinct:
  "distinct (map pos_name xs) \<Longrightarrow>
   update_one (\<lambda>sp. pos_name sp = n) f xs = map (\<lambda>sp. if pos_name sp = n then f sp else sp) xs"
proof (induction xs)
  case Nil
  show ?case by simp
next
  case (Cons x xs)
  show ?case
  proof (cases "pos_name x = n")
    case True
    with Cons.prems have "n \<notin> pos_name ` set xs" by simp
    then have "\<forall>y \<in> set xs. pos_name y \<noteq> n" by blast
    then have "map (\<lambda>sp. if pos_name sp = n then f sp else sp) xs = xs"
      by (induction xs) auto
    with True show ?thesis by simp
  next
    case False
    with Cons show ?thesis by simp
  qed
qed

lemma find_SomeD: "find P xs = Some x \<Longrightarrow> P x \<and> x \<in> set xs"
  by (induction xs) (auto split: if_splits)

lemma find_map_same:
  "(\<And>x. P (g x) = P x) \<Longrightarrow> find P (map g xs) = map_option g (find P xs)"
  by (induction xs) auto

lemma lock_names_empty [simp]: "lock_names t {} db = db"
  by (simp add: lock_names_def)

lemma lock_names_twice: "lock_names t B (lock_names t A db) = lock_names t (A \<union> B) db"
  by (auto simp: lock_names_def set_task_id_def)

lemma sample_collection_lock_names [simp]:
  "sample_collection (lock_names t N db) = sample_collection db"
  by (simp add: lock_names_def)

lemma names_lock_names [simp]:
  "map pos_name (sample_positions_collection (lock_names t N db)) =
   map pos_name (sample_positions_collection db)"
  by (simp add: lock_names_def comp_def)

lemma get_sample_position_lock_names:
  "get_sample_position (lock_names t N db) m =
   map_option (\<lambda>sp. if m \<in> N then set_task_id (Some t) sp else sp) (get_sample_position db m)"
proof -
  have "find (\<lambda>sp. pos_name sp = m)
          (map (\<lambda>sp. if pos_name sp \<in> N then set_task_id (Some t) sp else sp)
             (sample_positions_collection db)) =
        map_option (\<lambda>sp. if pos_name sp \<in> N then set_task_id (Some t) sp else sp)
          (find (\<lambda>sp. pos_name sp = m) (sample_positions_collection db))"
    by (rule find_map_same) simp
  moreover have "map_option (\<lambda>sp. if pos_name sp \<in> N then set_task_id (Some t) sp else sp)
          (find (\<lambda>sp. pos_name sp = m) (sample_positions_collection db)) =
        map_option (\<lambda>sp. if m \<in> N then set_task_id (Some t) sp else sp)
          (find (\<lambda>sp. pos_name sp = m) (sample_positions_collection db))"
  proof (cases "find (\<lambda>sp. pos_name sp = m) (sample_positions_collection db)")
    case None
    then show ?thesis by simp
  next
    case (Some sp)
    from find_SomeD [OF this] have "pos_name sp = m" by simp
    with Some show ?thesis by simp
  qed
  ultimately show ?thesis
    by (simp add: get_sample_position_def lock_names_def)
qed

lemma stored_owner_lock_names:
  "m \<in> pos_name ` set (sample_positions_collection db) \<Longrightarrow>
   stored_owner (lock_names t N db) m = (if m \<in> N then Some t else stored_owner db m)"
  using get_sample_position_Some [of m db]
  by (auto simp: stored_owner_def get_sample_position_lock_names set_task_id_def)

lemma status_unreferenced:
  assumes "m \<in> pos_name ` set (sample_positions_collection db)"
    and "\<forall>s \<in> set (sample_collection db). smp_position s \<noteq> Some m"
  shows "get_sample_position_status db m =
           (case stored_owner db m of None \<Rightarrow> Inr (EMPTY, None) | Some u \<Rightarrow> Inr (LOCKED, Some u))"
proof -
  from assms(2) have "find (\<lambda>s. smp_position s = Some m) (sample_collection db) = None"
    by (auto simp: find_None_iff)
  with get_sample_position_Some [OF assms(1)] show ?thesis
    by (auto simp: get_sample_position_status_def stored_owner_def)
qed

lemma lock_sample_position_free:
  assumes "distinct (map pos_name (sample_positions_collection db))"
    and "m \<in> pos_name ` set (sample_positions_collection db)"
    and "\<forall>s \<in> set (sample_collection db). smp_position s \<noteq> Some m"
    and "stored_owner db m = None \<or> stored_owner db m = Some t"
  shows "lock_sample_position t m db = (Inr (), lock_names t {m} db)"
proof -
  from assms(4) status_unreferenced [OF assms(2,3)]
  have "get_sample_position_status db m = Inr (EMPTY, None) \<or>
        get_sample_position_status db m = Inr (LOCKED, Some t)"
    by auto
  then show ?thesis
    using update_one_distinct [OF assms(1), of m "set_task_id (Some t)"]
    by (auto simp: lock_sample_position_def lock_names_def)
qed

lemma occupy_sample_positions_free:
  assumes "distinct (map pos_name (sample_positions_collection db))"
    and "set ns \<subseteq> pos_name ` set (sample_positions_collection db)"
    and "\<forall>m \<in> set ns. \<forall>s \<in> set (sample_collection db). smp_position s \<noteq> Some m"
    and "\<forall>m \<in> set ns. stored_owner db m = None \<or> stored_owner db m = Some t"
  shows "occupy_sample_positions t ns db = (Inr (), lock_names t (set ns) db)"
  using assms
proof (induction ns arbitrary: db)
  case Nil
  show ?case by simp
next
  case (Cons m ns)
  let ?db1 = "lock_names t {m} db"
  from Cons.prems have l: "lock_sample_position t m db = (Inr (), ?db1)"
    by (intro lock_sample_position_free) auto
  have names: "pos_name ` set (sample_positions_collection ?db1) =
      pos_name ` set (sample_positions_collection db)"
    using names_lock_names [of t "{m}" db] by (metis set_map)
  have "occupy_sample_positions t ns ?db1 = (Inr (), lock_names t (set ns) ?db1)"
  proof (rule Cons.IH)
    show "distinct (map pos_name (sample_positions_collection ?db1))"
      using Cons.prems(1) by simp
    show "set ns \<subseteq> pos_name ` set (sample_positions_collection ?db1)"
      using Cons.prems(2) names by simp
    show "\<forall>m \<in> set ns. \<forall>s \<in> set (sample_collection ?db1). smp_position s \<noteq> Some m"
      using Cons.prems(3) by simp
    show "\<forall>k \<in> set ns. stored_owner ?db1 k = None \<or> stored_owner ?db1 k = Some t"
    proof
      fix k assume k: "k \<in> set ns"
      with Cons.prems(2) have "k \<in> pos_name ` set (sample_positions_collection db)" by auto
      from stored_owner_lock_names [OF this, of t "{m}"] Cons.prems(4) k
      show "stored_owner ?db1 k = None \<or> stored_owner ?db1 k = Some t" by auto
    qed
  qed
  with l show ?case
    by (simp add: lock_names_twice)
qed

lemma candidates_lock_names:
  assumes free: "\<forall>sp \<in> set (sample_positions_collection db).
                   regex_prefix p (pos_name sp) \<longrightarrow> pos_task_id sp = None"
    and unref: "\<forall>s \<in> set (sample_collection db). \<forall>nm. smp_position s = Some nm \<longrightarrow>
                   \<not> regex_prefix p nm"
  shows "candidates (lock_names t N db) t p =
           map (\<lambda>sp. \<lparr>name = pos_name sp, need_release = (pos_name sp \<notin> N)\<rparr>)
             (filter (\<lambda>sp. regex_prefix p (pos_name sp)) (sample_positions_collection db))"
proof -
  let ?db2 = "lock_names t N db"
  let ?g = "\<lambda>sp. if pos_name sp \<in> N then set_task_id (Some t) sp else sp"
  let ?xs = "sample_positions_collection db"
  have pc: "sample_positions_collection ?db2 = map ?g ?xs"
    by (simp add: lock_names_def)
  have names2: "pos_name ` set (sample_positions_collection ?db2) = pos_name ` set ?xs"
    using names_lock_names [of t N db] by (metis set_map)
  have facts: "stored_owner ?db2 (pos_name sp) = (if pos_name sp \<in> N then Some t else None) \<and>
      available_to ?db2 t (pos_name sp)"
    if sp: "sp \<in> set ?xs" and m: "regex_prefix p (pos_name sp)" for sp
  proof -
    from sp have known: "pos_name sp \<in> pos_name ` set ?xs" by simp
    from get_sample_position_Some [OF known] obtain d where
      d: "get_sample_position db (pos_name sp) = Some d" "pos_name d = pos_name sp" "d \<in> set ?xs"
      by blast
    with free m have "pos_task_id d = None" by simp
    with d have o: "stored_owner db (pos_name sp) = None" by (simp add: stored_owner_def)
    have o2: "stored_owner ?db2 (pos_name sp) = (if pos_name sp \<in> N then Some t else None)"
      using stored_owner_lock_names [OF known, of t N] o by simp
    from unref m have "\<forall>s \<in> set (sample_collection ?db2). smp_position s \<noteq> Some (pos_name sp)"
      by auto
    moreover from known names2 have "pos_name sp \<in> pos_name ` set (sample_positions_collection ?db2)"
      by simp
    ultimately have "get_sample_position_status ?db2 (pos_name sp) =
        (case stored_owner ?db2 (pos_name sp) of
           None \<Rightarrow> Inr (EMPTY, None) | Some u \<Rightarrow> Inr (LOCKED, Some u))"
      by (intro status_unreferenced)
    with o2 have "available_to ?db2 t (pos_name sp)" by (simp add: available_to_def)
    with o2 show ?thesis by simp
  qed
  have owner: "pos_task_id (?g sp) = None \<or> pos_task_id (?g sp) = Some t"
    if "sp \<in> set ?xs" and "regex_prefix p (pos_name sp)" for sp
    using that free by (simp add: set_task_id_def)
  have flt: "filter ((\<lambda>sp. regex_prefix p (pos_name sp) \<and>
                      (pos_task_id sp = None \<or> pos_task_id sp = Some t) \<and>
                      available_to ?db2 t (pos_name sp)) \<circ> ?g) ?xs =
        filter (\<lambda>sp. regex_prefix p (pos_name sp)) ?xs"
  proof (rule filter_cong [OF refl])
    fix sp assume sp: "sp \<in> set ?xs"
    show "((\<lambda>sp. regex_prefix p (pos_name sp) \<and>
                      (pos_task_id sp = None \<or> pos_task_id sp = Some t) \<and>
                      available_to ?db2 t (pos_name sp)) \<circ> ?g) sp =
        regex_prefix p (pos_name sp)"
    proof (cases "regex_prefix p (pos_name sp)")
      case True
      with facts [OF sp True] owner [OF sp True] show ?thesis by (simp add: comp_def)
    next
      case False
      then show ?thesis by (simp add: comp_def)
    qed
  qed
  have "candidates ?db2 t p =
      map (\<lambda>sp. \<lparr>name = pos_name sp, need_release = (stored_owner ?db2 (pos_name sp) \<noteq> Some t)\<rparr>)
        (map ?g (filter (\<lambda>sp. regex_prefix p (pos_name sp)) ?xs))"
    unfolding candidates_def pc
    by (simp only: filter_map flt)
  also have "\<dots> = map (\<lambda>sp. \<lparr>name = pos_name sp, need_release = (pos_name sp \<notin> N)\<rparr>)
             (filter (\<lambda>sp. regex_prefix p (pos_name sp)) ?xs)"
    unfolding map_map
  proof (rule map_cong [OF refl])
    fix sp assume "sp \<in> set (filter (\<lambda>sp. regex_prefix p (pos_name sp)) ?xs)"
    then have sp: "sp \<in> set ?xs" and m: "regex_prefix p (pos_name sp)" by simp_all
    from facts [OF sp m] show "((\<lambda>sp. \<lparr>name = pos_name sp,
          need_release = (stored_owner ?db2 (pos_name sp) \<noteq> Some t)\<rparr>) \<circ> ?g) sp =
        \<lparr>name = pos_name sp, need_release = (pos_name sp \<notin> N)\<rparr>"
      by (simp add: comp_def)
  qed
  finally show ?thesis .
qed

lemma sorted_need_release:
  "sort_key (\<lambda>task. (of_bool (need_release task) :: int))
     (map (\<lambda>nm. \<lparr>name = nm, need_release = False\<rparr>) as @
      map (\<lambda>nm. \<lparr>name = nm, need_release = True\<rparr>) bs) =
   map (\<lambda>nm. \<lparr>name = nm, need_release = False\<rparr>) as @
   map (\<lambda>nm. \<lparr>name = nm, need_release = True\<rparr>) bs"
  by (rule sort_key_id_if_sorted) (simp add: sorted_append comp_def map_replicate_const)

lemma split_by_membership:
  assumes "distinct L"
  shows "map (\<lambda>nm. \<lparr>name = nm, need_release = (nm \<notin> set (take n L))\<rparr>) L =
         map (\<lambda>nm. \<lparr>name = nm, need_release = False\<rparr>) (take n L) @
         map (\<lambda>nm. \<lparr>name = nm, need_release = True\<rparr>) (drop n L)"
proof -
  from assms have disj: "set (take n L) \<inter> set (drop n L) = {}"
    by (rule set_take_disj_set_drop_if_distinct) simp
  have "map (\<lambda>nm. \<lparr>name = nm, need_release = (nm \<notin> set (take n L))\<rparr>) (take n L @ drop n L) =
         map (\<lambda>nm. \<lparr>name = nm, need_release = False\<rparr>) (take n L) @
         map (\<lambda>nm. \<lparr>name = nm, need_release = True\<rparr>) (drop n L)"
    unfolding map_append using disj by (intro arg_cong2 [where f = append] map_cong) auto
  then show ?thesis by simp
qed

lemma request_sample_positions_Some:
  assumes "request_sample_positions t args db = (Inr (Some g), db')"
  shows "db' = db \<and>
         (\<exists>reqs. sample_positions_request args = Inr reqs \<and>
            check_enough_positions db reqs = Inr () \<and>
            available_positions db t reqs = Inr (Some g))"
proof -
  from assms obtain reqs where reqs: "sample_positions_request args = Inr reqs"
    by (cases "sample_positions_request args") (simp_all add: request_sample_positions_def)
  from assms reqs have dup: "length reqs = length (remdups (map prefix reqs))"
    by (cases "length reqs = length (remdups (map prefix reqs))")
      (simp_all add: request_sample_positions_def)
  from assms reqs dup have chk: "check_enough_positions db reqs = Inr ()"
    by (cases "check_enough_positions db reqs") (simp_all add: request_sample_positions_def)
  with assms reqs dup have "available_positions db t reqs = Inr (Some g) \<and> db' = db"
    by (auto simp: request_sample_positions_def)
  with reqs chk show ?thesis by blast
qed

lemma stored_owner_free:
  assumes "\<forall>sp \<in> set (sample_positions_collection db).
             regex_prefix p (pos_name sp) \<longrightarrow> pos_task_id sp = None"
    and "regex_prefix p m"
  shows "stored_owner db m = None"
proof (cases "get_sample_position db m")
  case None
  then show ?thesis by (simp add: stored_owner_def)
next
  case (Some d)
  then have "pos_name d = m \<and> d \<in> set (sample_positions_collection db)"
    unfolding get_sample_position_def by (rule find_SomeD)
  with assms have "pos_task_id d = None" by simp
  with Some show ?thesis by (simp add: stored_owner_def)
qed

lemma count_documents_lock_names [simp]:
  "count_documents (lock_names t N db) p = count_documents db p"
proof -
  have "filter (\<lambda>sp. regex_prefix p (pos_name sp))
          (map (\<lambda>sp. if pos_name sp \<in> N then set_task_id (Some t) sp else sp)
             (sample_positions_collection db)) =
        map (\<lambda>sp. if pos_name sp \<in> N then set_task_id (Some t) sp else sp)
          (filter (\<lambda>sp. regex_prefix p (pos_name sp)) (sample_positions_collection db))"
    by (induction "sample_positions_collection db" arbitrary: db) (simp_all add: filter_map comp_def)
  then show ?thesis
    by (simp add: count_documents_def lock_names_def)
qed

lemma reacquire_free:
  assumes dist: "distinct (map pos_name (sample_positions_collection db))"
    and free: "\<forall>sp \<in> set (sample_positions_collection db).
                 regex_prefix p (pos_name sp) \<longrightarrow> pos_task_id sp = None"
    and unref: "\<forall>s \<in> set (sample_collection db). \<forall>nm. smp_position s = Some nm \<longrightarrow>
                 \<not> regex_prefix p nm"
    and ok: "request_sample_positions t [Req \<lparr>prefix = p, number = n\<rparr>] db = (Inr (Some g), db1)"
  shows "\<exists>names db2.
           names = take n (map pos_name (filter (\<lambda>sp. regex_prefix p (pos_name sp))
                                           (sample_positions_collection db))) \<and>
           length names = n \<and> db1 = db \<and>
           g = [(p, map (\<lambda>nm. \<lparr>name = nm, need_release = True\<rparr>) names)] \<and>
           occupy_sample_positions t (grant_names g) db1 = (Inr (), db2) \<and>
           request_sample_positions t [Req \<lparr>prefix = p, number = n\<rparr>] db2 =
             (Inr (Some [(p, map (\<lambda>nm. \<lparr>name = nm, need_release = False\<rparr>) names)]), db2)"
proof -
  let ?r = "\<lparr>prefix = p, number = n\<rparr>"
  let ?key = "\<lambda>task. (of_bool (need_release task) :: int)"
  let ?ms = "filter (\<lambda>sp. regex_prefix p (pos_name sp)) (sample_positions_collection db)"
  let ?L = "map pos_name ?ms"
  let ?names = "take n ?L"
  let ?db2 = "lock_names t (set ?names) db"
  let ?T = "\<lambda>nm. \<lparr>name = nm, need_release = True\<rparr>"
  let ?F = "\<lambda>nm. \<lparr>name = nm, need_release = False\<rparr>"
  have distL: "distinct ?L" using dist by (rule distinct_map_filter)
  \<comment> \<open>the first request\<close>
  have c0: "candidates db t p = map ?T ?L"
    using candidates_lock_names [OF free unref, of t "{}"] by (simp add: comp_def)
  from request_sample_positions_Some [OF ok] have db1: "db1 = db"
    and av: "available_positions db t [?r] = Inr (Some g)"
    by auto
  from available_positions_Some [OF av] have g: "g = [(p, chosen db t ?r)]"
    and n: "n \<le> length ?L" and ne: "?L \<noteq> []"
    by (simp_all add: c0)
  have s0: "sort_key ?key (map ?T ?L) = map ?T ?L"
    using sorted_need_release [of "[]" ?L] by simp
  have "chosen db t ?r = take n (sort_key ?key (candidates db t p))"
    by (simp add: chosen_def)
  also have "\<dots> = take n (map ?T ?L)" by (simp only: c0 s0)
  also have "\<dots> = map ?T ?names" by (simp only: take_map)
  finally have ch0: "chosen db t ?r = map ?T ?names" .
  from n have len: "length ?names = n" by simp
  have gn: "grant_names g = ?names"
    by (simp add: g ch0 grant_names_def comp_def)
  \<comment> \<open>the commit\<close>
  have sub: "set ?names \<subseteq> set ?L" by (rule set_take_subset)
  have m: "regex_prefix p k" if "k \<in> set ?names" for k
    using that sub by auto
  have occ: "occupy_sample_positions t ?names db = (Inr (), ?db2)"
  proof (rule occupy_sample_positions_free [OF dist])
    show "set ?names \<subseteq> pos_name ` set (sample_positions_collection db)"
      using sub by auto
    show "\<forall>k \<in> set ?names. \<forall>s \<in> set (sample_collection db). smp_position s \<noteq> Some k"
      using unref m by blast
    show "\<forall>k \<in> set ?names. stored_owner db k = None \<or> stored_owner db k = Some t"
      using stored_owner_free [OF free] m by blast
  qed
  \<comment> \<open>the same request again\<close>
  have c2: "candidates ?db2 t p = map ?F ?names @ map ?T (drop n ?L)"
    using candidates_lock_names [OF free unref, of t "set ?names"]
      split_by_membership [OF distL, of n]
    by (simp add: comp_def)
  have "chosen ?db2 t ?r = take n (sort_key ?key (candidates ?db2 t p))"
    by (simp add: chosen_def)
  also have "\<dots> = take n (map ?F ?names @ map ?T (drop n ?L))"
    by (simp only: c2 sorted_need_release)
  also have "\<dots> = map ?F ?names" using len by simp
  finally have ch2: "chosen ?db2 t ?r = map ?F ?names" .
  from ne have cnt: "0 < count_documents db p" by (simp add: count_documents_def)
  from n have enough: "n \<le> count_documents db p" by (simp add: count_documents_def)
  have lc2: "length (candidates ?db2 t p) = length ?L"
    unfolding c2 by simp
  have cnt2: "\<forall>r \<in> set [?r]. 0 < count_documents ?db2 (prefix r)"
    using cnt by simp
  have cond: "\<forall>r \<in> set [?r]. candidates ?db2 t (prefix r) \<noteq> [] \<and>
                number r \<le> length (candidates ?db2 t (prefix r))"
    using n ne lc2 by auto
  have "available_positions ?db2 t [?r] =
      Inr (Some (map (\<lambda>r. (prefix r, chosen ?db2 t r)) [?r]))"
    unfolding available_positions_eq [OF cnt2]
    by (rule arg_cong [where f = Inr]) (rule if_P [OF cond])
  then have "available_positions ?db2 t [?r] = Inr (Some [(p, chosen ?db2 t ?r)])"
    by simp
  with enough ch2 have again:
    "request_sample_positions t [Req ?r] ?db2 = (Inr (Some [(p, map ?F ?names)]), ?db2)"
    by (simp add: request_sample_positions_def)
  from len db1 g ch0 gn occ again show ?thesis by simp
qed

lemma insort_key_skip:
  "\<forall>a \<in> set as. f a < f x \<Longrightarrow> insort_key f x (as @ bs) = as @ insort_key f x bs"
  by (induction as) auto

lemma insort_key_front:
  "\<forall>b \<in> set bs. f x \<le> f b \<Longrightarrow> insort_key f x bs = x # bs"
  by (cases bs) auto

lemma sort_key_need_release:
  "sort_key (\<lambda>task. (of_bool (need_release task) :: int)) cs =
   filter (\<lambda>c. \<not> need_release c) cs @ filter need_release cs"
proof (induction cs)
  case Nil
  show ?case by simp
next
  case (Cons x xs)
  let ?key = "\<lambda>task. (of_bool (need_release task) :: int)"
  let ?F = "filter (\<lambda>c. \<not> need_release c) xs"
  let ?T = "filter need_release xs"
  have s: "sort_key ?key (x # xs) = insort_key ?key x (?F @ ?T)"
    using Cons.IH by simp
  show ?case
  proof (cases "need_release x")
    case False
    then have "insort_key ?key x (?F @ ?T) = x # (?F @ ?T)"
      by (intro insort_key_front) simp
    with s False show ?thesis by simp
  next
    case True
    then have "insort_key ?key x (?F @ ?T) = ?F @ insort_key ?key x ?T"
      by (intro insort_key_skip) simp
    moreover from True have "insort_key ?key x ?T = x # ?T"
      by (intro insort_key_front) simp
    ultimately show ?thesis using s True by simp
  qed
qed

lemma candidates_nonempty_match:
  "candidates db t p \<noteq> [] \<Longrightarrow>
   \<exists>sp \<in> set (sample_positions_collection db). regex_prefix p (pos_name sp)"
  by (auto simp: candidates_def filter_empty_conv)

lemma selection_policy:
  assumes "request_sample_positions t (map Req reqs) db = (Inr (Some g), dba)"
  shows "list_all2
           (\<lambda>r x. \<exists>cs. get_available_sample_position db t (prefix r) = Inr cs \<and>
                x = (prefix r, take (number r)
                                 (filter (\<lambda>c. \<not> need_release c) cs @ filter need_release cs)))
           reqs g"
proof -
  from request_sample_positions_Some [OF assms] sample_positions_request_Req [of reqs]
  have av: "available_positions db t reqs = Inr (Some g)" by auto
  note g = available_positions_Some [OF av]
  have "\<exists>cs. get_available_sample_position db t (prefix r) = Inr cs \<and>
          (prefix r, chosen db t r) =
            (prefix r, take (number r)
               (filter (\<lambda>c. \<not> need_release c) cs @ filter need_release cs))"
    if "r \<in> set reqs" for r
  proof -
    from that g have "candidates db t (prefix r) \<noteq> []" by simp
    from candidates_nonempty_match [OF this]
    have "get_available_sample_position db t (prefix r) = Inr (candidates db t (prefix r))"
      by (simp add: get_available_sample_position_eq)
    then show ?thesis
      by (simp add: chosen_def sort_key_need_release)
  qed
  then have "list_all2
           (\<lambda>r x. \<exists>cs. get_available_sample_position db t (prefix r) = Inr cs \<and>
                x = (prefix r, take (number r)
                                 (filter (\<lambda>c. \<not> need_release c) cs @ filter need_release cs)))
           reqs (map (\<lambda>r. (prefix r, chosen db t r)) reqs)"
    by (simp add: list_all2_map2 list_all2_same)
  with g show ?thesis by simp
qed

text \<open>
  Claim C6, as amended. For every request that succeeds, the grant of each prefix is the
  first \<open>number\<close> of the candidates sorted by \<^verbatim>\<open>need_release\<close> ascending: the candidates
  whose stored owner already is the requesting task (\<^verbatim>\<open>need_release\<close> false) in ledger
  order, then the others in ledger order. In a ledger with distinct position names
  where every position whose name starts with the prefix is \<^verbatim>\<open>EMPTY\<close> (no owner, no
  sample), a successful request for \<open>n\<close> positions grants the first \<open>n\<close> of them, all with
  \<^verbatim>\<open>need_release\<close> true, and writes nothing. Once the granted positions have been locked
  for the task (the commit, \<^verbatim>\<open>lock_sample_position\<close> for each of them), the same request
  is granted exactly the same \<open>n\<close> positions, in the same order, all with \<^verbatim>\<open>need_release\<close>
  false.
\<close>

theorem reacquire_after_commit:
  "(request_sample_positions t (map Req reqs) db = (Inr (Some g), dba) \<longrightarrow>
      list_all2
        (\<lambda>r x. \<exists>cs. get_available_sample_position db t (prefix r) = Inr cs \<and>
             x = (prefix r, take (number r)
                              (filter (\<lambda>c. \<not> need_release c) cs @ filter need_release cs)))
        reqs g) \<and>
   (distinct (map pos_name (sample_positions_collection db)) \<and>
    (\<forall>sp \<in> set (sample_positions_collection db).
        regex_prefix p (pos_name sp) \<longrightarrow> pos_task_id sp = None) \<and>
    (\<forall>s \<in> set (sample_collection db). \<forall>nm. smp_position s = Some nm \<longrightarrow>
        \<not> regex_prefix p nm) \<and>
    request_sample_positions t [Req \<lparr>prefix = p, number = n\<rparr>] db = (Inr (Some g'), dbb) \<longrightarrow>
      (\<exists>names db2.
         names = take n (map pos_name (filter (\<lambda>sp. regex_prefix p (pos_name sp))
                                         (sample_positions_collection db))) \<and>
         length names = n \<and> dbb = db \<and>
         g' = [(p, map (\<lambda>nm. \<lparr>name = nm, need_release = True\<rparr>) names)] \<and>
         occupy_sample_positions t (grant_names g') dbb = (Inr (), db2) \<and>
         request_sample_positions t [Req \<lparr>prefix = p, number = n\<rparr>] db2 =
           (Inr (Some [(p, map (\<lambda>nm. \<lparr>name = nm, need_release = False\<rparr>) names)]), db2)))"
proof (intro conjI impI)
  assume "request_sample_positions t (map Req reqs) db = (Inr (Some g), dba)"
  then show "list_all2
        (\<lambda>r x. \<exists>cs. get_available_sample_position db t (prefix r) = Inr cs \<and>
             x = (prefix r, take (number r)
                              (filter (\<lambda>c. \<not> need_release c) cs @ filter need_release cs)))
        reqs g"
    by (rule selection_policy)
next
  assume a: "distinct (map pos_name (sample_positions_collection db)) \<and>
    (\<forall>sp \<in> set (sample_positions_collection db).
        regex_prefix p (pos_name sp) \<longrightarrow> pos_task_id sp = None) \<and>
    (\<forall>s \<in> set (sample_collection db). \<forall>nm. smp_position s = Some nm \<longrightarrow>
        \<not> regex_prefix p nm) \<and>
    request_sample_positions t [Req \<lparr>prefix = p, number = n\<rparr>] db = (Inr (Some g'), dbb)"
  then have d: "distinct (map pos_name (sample_positions_collection db))"
    and f: "\<forall>sp \<in> set (sample_positions_collection db).
        regex_prefix p (pos_name sp) \<longrightarrow> pos_task_id sp = None"
    and u: "\<forall>s \<in> set (sample_collection db). \<forall>nm. smp_position s = Some nm \<longrightarrow>
        \<not> regex_prefix p nm"
    and r: "request_sample_positions t [Req \<lparr>prefix = p, number = n\<rparr>] db = (Inr (Some g'), dbb)"
    by blast+
  show "\<exists>names db2.
         names = take n (map pos_name (filter (\<lambda>sp. regex_prefix p (pos_name sp))
                                         (sample_positions_collection db))) \<and>
         length names = n \<and> dbb = db \<and>
         g' = [(p, map (\<lambda>nm. \<lparr>name = nm, need_release = True\<rparr>) names)] \<and>
         occupy_sample_positions t (grant_names g') dbb = (Inr (), db2) \<and>
         request_sample_positions t [Req \<lparr>prefix = p, number = n\<rparr>] db2 =
           (Inr (Some [(p, map (\<lambda>nm. \<lparr>name = nm, need_release = False\<rparr>) names)]), db2)"
    by (rule reacquire_free [OF d f u r])
qed

theorem reacquire_after_commit_witness:
  "request_sample_positions 1 [Req \<lparr>prefix = ''A'', number = 1\<rparr>] ex_reserve_db =
     (Inr (Some [(''A'', [\<lparr>name = ''A2'', need_release = False\<rparr>])]), ex_reserve_db) \<and>
   get_available_sample_position ex_reserve_db 1 ''A'' =
     Inr [\<lparr>name = ''A1'', need_release = True\<rparr>, \<lparr>name = ''A2'', need_release = False\<rparr>] \<and>
   request_sample_positions 1 ex_tray_request ex_tray_db =
     (Inr (Some [(''oven/tray'',
         [\<lparr>name = ''oven/tray/1'', need_release = True\<rparr>,
          \<lparr>name = ''oven/tray/2'', need_release = True\<rparr>,
          \<lparr>name = ''oven/tray/3'', need_release = True\<rparr>,
          \<lparr>name = ''oven/tray/4'', need_release = True\<rparr>])]), ex_tray_db) \<and>
   request_sample_positions 1 ex_tray_request
     (snd (occupy_sample_positions 1
        [''oven/tray/1'', ''oven/tray/2'', ''oven/tray/3'', ''oven/tray/4''] ex_tray_db)) =
     (Inr (Some [(''oven/tray'',
         [\<lparr>name = ''oven/tray/1'', need_release = False\<rparr>,
          \<lparr>name = ''oven/tray/2'', need_release = False\<rparr>,
          \<lparr>name = ''oven/tray/3'', need_release = False\<rparr>,
          \<lparr>name = ''oven/tray/4'', need_release = False\<rparr>])]),
      \<lparr>sample_positions_collection =
         [pos ''oven/tray/1'' (Some 1), pos ''oven/tray/2'' (Some 1), pos ''oven/tray/3'' (Some 1),
          pos ''oven/tray/4'' (Some 1)],
       sample_collection = []\<rparr>)"
proof -
  have a: "get_available_sample_position ex_reserve_db 1 ''A'' =
     Inr [\<lparr>name = ''A1'', need_release = True\<rparr>, \<lparr>name = ''A2'', need_release = False\<rparr>]"
    by (simp add: ex_reserve_db_def pos_def regex_prefix_def get_available_sample_position_def
      get_sample_position_status_def get_sample_position_def)
  have q: "request_sample_positions 1 [Req \<lparr>prefix = ''A'', number = 1\<rparr>] ex_reserve_db =
     (Inr (Some [(''A'', [\<lparr>name = ''A2'', need_release = False\<rparr>])]), ex_reserve_db)"
    by (simp add: ex_reserve_db_def pos_def regex_prefix_def request_sample_positions_def
      count_documents_def get_available_sample_position_def get_sample_position_status_def
      get_sample_position_def)
  have d: "distinct (map pos_name (sample_positions_collection ex_tray_db))"
    by (simp add: ex_tray_db_def pos_def)
  have f: "\<forall>sp \<in> set (sample_positions_collection ex_tray_db).
             regex_prefix ''oven/tray'' (pos_name sp) \<longrightarrow> pos_task_id sp = None"
    by (simp add: ex_tray_db_def pos_def)
  have u: "\<forall>s \<in> set (sample_collection ex_tray_db). \<forall>nm. smp_position s = Some nm \<longrightarrow>
             \<not> regex_prefix ''oven/tray'' nm"
    by (simp add: ex_tray_db_def)
  have r: "request_sample_positions 1 [Req \<lparr>prefix = ''oven/tray'', number = 4\<rparr>] ex_tray_db =
     (Inr (Some [(''oven/tray'',
         [\<lparr>name = ''oven/tray/1'', need_release = True\<rparr>,
          \<lparr>name = ''oven/tray/2'', need_release = True\<rparr>,
          \<lparr>name = ''oven/tray/3'', need_release = True\<rparr>,
          \<lparr>name = ''oven/tray/4'', need_release = True\<rparr>])]), ex_tray_db)"
    by (simp add: ex_tray_db_def pos_def regex_prefix_def request_sample_positions_def
      count_documents_def get_available_sample_position_def get_sample_position_status_def
      get_sample_position_def)
  have n: "take 4 (map pos_name (filter (\<lambda>sp. regex_prefix ''oven/tray'' (pos_name sp))
                                  (sample_positions_collection ex_tray_db))) =
      [''oven/tray/1'', ''oven/tray/2'', ''oven/tray/3'', ''oven/tray/4'']"
    by (simp add: ex_tray_db_def pos_def regex_prefix_def)
  have l: "occupy_sample_positions 1
        [''oven/tray/1'', ''oven/tray/2'', ''oven/tray/3'', ''oven/tray/4''] ex_tray_db =
      (Inr (), \<lparr>sample_positions_collection =
         [pos ''oven/tray/1'' (Some 1), pos ''oven/tray/2'' (Some 1), pos ''oven/tray/3'' (Some 1),
          pos ''oven/tray/4'' (Some 1)],
       sample_collection = []\<rparr>)"
    by (simp add: ex_tray_db_def pos_def lock_sample_position_def get_sample_position_status_def
      get_sample_position_def set_task_id_def)
  have gn: "grant_names [(''oven/tray'',
         [\<lparr>name = ''oven/tray/1'', need_release = True\<rparr>,
          \<lparr>name = ''oven/tray/2'', need_release = True\<rparr>,
          \<lparr>name = ''oven/tray/3'', need_release = True\<rparr>,
          \<lparr>name = ''oven/tray/4'', need_release = True\<rparr>])] =
      [''oven/tray/1'', ''oven/tray/2'', ''oven/tray/3'', ''oven/tray/4'']"
    by (simp add: grant_names_def)
  from q have q': "request_sample_positions 1 (map Req [\<lparr>prefix = ''A'', number = 1\<rparr>])
      ex_reserve_db =
     (Inr (Some [(''A'', [\<lparr>name = ''A2'', need_release = False\<rparr>])]), ex_reserve_db)"
    by simp
  note sel = reacquire_after_commit
      [where t = 1 and reqs = "[\<lparr>prefix = ''A'', number = 1\<rparr>]" and db = ex_reserve_db
         and g = "[(''A'', [\<lparr>name = ''A2'', need_release = False\<rparr>])]" and dba = ex_reserve_db,
       THEN conjunct1, THEN mp, OF q']
  from sel a have first: "[\<lparr>name = ''A2'', need_release = False\<rparr>] =
      take 1 (filter (\<lambda>c. \<not> need_release c)
                [\<lparr>name = ''A1'', need_release = True\<rparr>, \<lparr>name = ''A2'', need_release = False\<rparr>] @
              filter need_release
                [\<lparr>name = ''A1'', need_release = True\<rparr>, \<lparr>name = ''A2'', need_release = False\<rparr>])"
    by simp
  note th = reacquire_after_commit
      [where t = 1 and db = ex_tray_db and p = "''oven/tray''" and n = 4
         and g' = "[(''oven/tray'',
         [\<lparr>name = ''oven/tray/1'', need_release = True\<rparr>,
          \<lparr>name = ''oven/tray/2'', need_release = True\<rparr>,
          \<lparr>name = ''oven/tray/3'', need_release = True\<rparr>,
          \<lparr>name = ''oven/tray/4'', need_release = True\<rparr>])]" and dbb = ex_tray_db,
       THEN conjunct2, THEN mp, OF conjI [OF d conjI [OF f conjI [OF u r]]]]
  from th obtain names db2 where
    nm: "names = take 4 (map pos_name (filter (\<lambda>sp. regex_prefix ''oven/tray'' (pos_name sp))
                                          (sample_positions_collection ex_tray_db)))"
    and oc: "occupy_sample_positions 1 (grant_names [(''oven/tray'',
         [\<lparr>name = ''oven/tray/1'', need_release = True\<rparr>,
          \<lparr>name = ''oven/tray/2'', need_release = True\<rparr>,
          \<lparr>name = ''oven/tray/3'', need_release = True\<rparr>,
          \<lparr>name = ''oven/tray/4'', need_release = True\<rparr>])]) ex_tray_db = (Inr (), db2)"
    and ag: "request_sample_positions 1 [Req \<lparr>prefix = ''oven/tray'', number = 4\<rparr>] db2 =
       (Inr (Some [(''oven/tray'', map (\<lambda>nm. \<lparr>name = nm, need_release = False\<rparr>) names)]), db2)"
    by blast
  from oc have db2: "db2 = \<lparr>sample_positions_collection =
         [pos ''oven/tray/1'' (Some 1), pos ''oven/tray/2'' (Some 1), pos ''oven/tray/3'' (Some 1),
          pos ''oven/tray/4'' (Some 1)],
       sample_collection = []\<rparr>"
    unfolding gn l by simp
  from nm have names: "names = [''oven/tray/1'', ''oven/tray/2'', ''oven/tray/3'', ''oven/tray/4'']"
    unfolding n .
  show ?thesis
    unfolding ex_tray_request_def l snd_conv
    using q a r ag [unfolded names db2] by simp
qed

text \<open>
  Claim C6 as stated fails: re-issued at once, with nothing written in between, the
  same request is granted the same positions with \<^verbatim>\<open>need_release\<close> true, not false.
\<close>

theorem reissue_at_once_counterexample:
  "request_sample_positions 1 ex_tray_request
     (snd (request_sample_positions 1 ex_tray_request ex_tray_db)) =
     (Inr (Some [(''oven/tray'',
         [\<lparr>name = ''oven/tray/1'', need_release = True\<rparr>,
          \<lparr>name = ''oven/tray/2'', need_release = True\<rparr>,
          \<lparr>name = ''oven/tray/3'', need_release = True\<rparr>,
          \<lparr>name = ''oven/tray/4'', need_release = True\<rparr>])]), ex_tray_db)"
  by (simp add: ex_tray_request_def ex_tray_db_def pos_def regex_prefix_def
      request_sample_positions_def count_documents_def get_available_sample_position_def
      get_sample_position_status_def get_sample_position_def)

section \<open>Scoped acquisition\<close>

lemma with_request_resources_body_raises:
  assumes "request_resources_enter lv resource_request s = (Inr (yielded, rid), s1)"
    and "body yielded s1 = (Inl e, s2)"
  shows "with_request_resources lv resource_request body s = (Inl e, s2)"
  using assms by (simp add: with_request_resources_def)

lemma with_request_resources_body_returns:
  assumes "request_resources_enter lv resource_request s = (Inr (yielded, rid), s1)"
    and "body yielded s1 = (Inr r, s2)"
  shows "with_request_resources lv resource_request body s =
           (case requester_release_resources lv rid s2 of
              (Inl e, s3) \<Rightarrow> (Inl e, s3)
            | (Inr u, s3) \<Rightarrow> (Inr r, s3))"
  using assms by (simp add: with_request_resources_def request_resources_resume_def)

lemma ex_lab_enter:
  "request_resources_enter (lab_view 1) [Str ''A''] ex_lab =
     (Inr (([], [(''A'', [\<lparr>name = ''A'', need_release = True\<rparr>])]), 0),
      \<lparr>ledger = \<lparr>sample_positions_collection = [pos ''A'' (Some 1)], sample_collection = []\<rparr>,
        task_status = [(1, RUNNING), (1, REQUESTING_RESOURCES)],
        granted = [(0, [(''A'', [\<lparr>name = ''A'', need_release = True\<rparr>])])]\<rparr>)"
  by (simp add: request_resources_enter_def lab_view_def update_status_def request_resources_def
      ex_lab_def pos_def request_sample_positions_def count_documents_def regex_prefix_def
      get_available_sample_position_def get_sample_position_status_def get_sample_position_def
      grant_names_def lock_sample_position_def set_task_id_def)

text \<open>
  Claim C1 fails on the code. Task 1 requests one position with prefix \<open>A\<close> in a
  \<^verbatim>\<open>with\<close> block. When the body raises, the exception leaves the block, the line after
  the \<^verbatim>\<open>yield\<close> is not run, and position \<open>A\<close> stays owned by task 1. When the body
  returns, the release is issued and the owner of \<open>A\<close> is cleared.
\<close>

theorem request_resources_leaks_on_exception:
  "fst (with_request_resources (lab_view 1) [Str ''A''] raising_body ex_lab) =
     Inl (BodyError ''failed'') \<and>
   get_sample_position
     (ledger (snd (with_request_resources (lab_view 1) [Str ''A''] raising_body ex_lab))) ''A'' =
     Some (pos ''A'' (Some 1)) \<and>
   fst (with_request_resources (lab_view 1) [Str ''A''] returning_body ex_lab) = Inr () \<and>
   get_sample_position
     (ledger (snd (with_request_resources (lab_view 1) [Str ''A''] returning_body ex_lab))) ''A'' =
     Some (pos ''A'' None)"
proof -
  have a: "with_request_resources (lab_view 1) [Str ''A''] raising_body ex_lab =
      (Inl (BodyError ''failed''),
       \<lparr>ledger = \<lparr>sample_positions_collection = [pos ''A'' (Some 1)], sample_collection = []\<rparr>,
        task_status = [(1, RUNNING), (1, REQUESTING_RESOURCES)],
        granted = [(0, [(''A'', [\<lparr>name = ''A'', need_release = True\<rparr>])])]\<rparr>)"
    by (rule with_request_resources_body_raises [OF ex_lab_enter]) (simp add: raising_body_def)
  have b: "with_request_resources (lab_view 1) [Str ''A''] returning_body ex_lab =
      (Inr (),
       \<lparr>ledger = \<lparr>sample_positions_collection = [pos ''A'' None], sample_collection = []\<rparr>,
        task_status = [(1, RUNNING), (1, REQUESTING_RESOURCES)],
        granted = [(0, [(''A'', [\<lparr>name = ''A'', need_release = True\<rparr>])])]\<rparr>)"
  proof -
    have body: "returning_body ([], [(''A'', [\<lparr>name = ''A'', need_release = True\<rparr>])])
        \<lparr>ledger = \<lparr>sample_positions_collection = [pos ''A'' (Some 1)], sample_collection = []\<rparr>,
          task_status = [(1, RUNNING), (1, REQUESTING_RESOURCES)],
          granted = [(0, [(''A'', [\<lparr>name = ''A'', need_release = True\<rparr>])])]\<rparr> =
        (Inr (),
         \<lparr>ledger = \<lparr>sample_positions_collection = [pos ''A'' (Some 1)], sample_collection = []\<rparr>,
          task_status = [(1, RUNNING), (1, REQUESTING_RESOURCES)],
          granted = [(0, [(''A'', [\<lparr>name = ''A'', need_release = True\<rparr>])])]\<rparr>)"
      by (simp add: returning_body_def)
    show ?thesis
      unfolding with_request_resources_body_returns
          [where body = returning_body, OF ex_lab_enter body]
      by (simp add: lab_view_def release_resources_def grant_names_def
        release_sample_position_def get_sample_position_def pos_def set_task_id_def)
  qed
  show ?thesis
    unfolding a b by (simp add: get_sample_position_def pos_def)
qed

section \<open>Further properties of the ledger\<close>

lemma add_numbered_positions_distinct:
  "distinct (map pos_name (sample_positions_collection db)) \<Longrightarrow>
   distinct (map pos_name (sample_positions_collection
      (snd (add_numbered_positions sample_pos parent is db))))"
proof (induction "is" arbitrary: db)
  case Nil
  then show ?case by simp
next
  case (Cons i rest)
  let ?n = "position_name sample_pos parent i"
  show ?case
  proof (cases "has_reserved_char ?n")
    case True
    with Cons.prems show ?thesis by simp
  next
    case False
    show ?thesis
    proof (cases "get_sample_position db ?n")
      case None
      then have "?n \<notin> pos_name ` set (sample_positions_collection db)"
        by (simp add: get_sample_position_None_iff)
      with Cons.prems have "distinct (map pos_name (sample_positions_collection
          (db\<lparr>sample_positions_collection := sample_positions_collection db @
                 [\<lparr>pos_name = ?n, pos_description = sp_description sample_pos,
                   pos_task_id = None,
                   pos_parent_device = (if truthy parent then parent else None)\<rparr>]\<rparr>)))"
        by simp
      from Cons.IH [OF this] False None show ?thesis by simp
    next
      case (Some d)
      with Cons.IH [OF Cons.prems] False show ?thesis by simp
    qed
  qed
qed

text \<open>
  Property X1. The invariant of the position collection the spec states ("name is globally unique"):
  \<^verbatim>\<open>add_sample_positions_to_db\<close> skips a name the ledger has, so it keeps the names
  pairwise distinct, also when it raises part of the way.
\<close>

theorem add_sample_positions_keeps_names_distinct:
  "distinct (map pos_name (sample_positions_collection db)) \<Longrightarrow>
   distinct (map pos_name (sample_positions_collection
      (snd (add_sample_positions_to_db sps parent db))))"
proof (induction sps arbitrary: db)
  case Nil
  then show ?case by simp
next
  case (Cons sample_pos rest)
  obtain r db1 where inner:
    "add_numbered_positions sample_pos parent [0..<sp_number sample_pos] db = (r, db1)"
    by (cases "add_numbered_positions sample_pos parent [0..<sp_number sample_pos] db")
  from add_numbered_positions_distinct [OF Cons.prems, of sample_pos parent "[0..<sp_number sample_pos]"]
    inner
  have d1: "distinct (map pos_name (sample_positions_collection db1))" by simp
  show ?case
  proof (cases r)
    case (Inl e)
    with inner d1 show ?thesis by simp
  next
    case (Inr u)
    with inner Cons.IH [OF d1] show ?thesis by simp
  qed
qed

theorem add_sample_positions_keeps_names_distinct_witness:
  "map pos_name (sample_positions_collection (snd (add_sample_positions_to_db
       [\<lparr>sp_name = ''tray'', sp_number = 2, sp_description = []\<rparr>,
        \<lparr>sp_name = ''tray/1'', sp_number = 1, sp_description = []\<rparr>] (Some ''oven'') empty_db))) =
     [''oven/tray/1'', ''oven/tray/2''] \<and>
   distinct (map pos_name (sample_positions_collection (snd (add_sample_positions_to_db
       [\<lparr>sp_name = ''tray'', sp_number = 2, sp_description = []\<rparr>,
        \<lparr>sp_name = ''tray/1'', sp_number = 1, sp_description = []\<rparr>] (Some ''oven'') empty_db))))"
proof -
  have "distinct (map pos_name (sample_positions_collection empty_db))"
    by (simp add: empty_db_def)
  from add_sample_positions_keeps_names_distinct [OF this,
      of "[\<lparr>sp_name = ''tray'', sp_number = 2, sp_description = []\<rparr>,
           \<lparr>sp_name = ''tray/1'', sp_number = 1, sp_description = []\<rparr>]" "Some ''oven''"]
  have d: "distinct (map pos_name (sample_positions_collection (snd (add_sample_positions_to_db
       [\<lparr>sp_name = ''tray'', sp_number = 2, sp_description = []\<rparr>,
        \<lparr>sp_name = ''tray/1'', sp_number = 1, sp_description = []\<rparr>] (Some ''oven'') empty_db))))" .
  have e: "map pos_name (sample_positions_collection (snd (add_sample_positions_to_db
       [\<lparr>sp_name = ''tray'', sp_number = 2, sp_description = []\<rparr>,
        \<lparr>sp_name = ''tray/1'', sp_number = 1, sp_description = []\<rparr>] (Some ''oven'') empty_db))) =
     [''oven/tray/1'', ''oven/tray/2'']"
    by code_simp
  from e d show ?thesis by blast
qed

text \<open>
  Property X2. \<^verbatim>\<open>release_sample_position\<close> (the spec's \<open>releaseOne\<close>): for a name no position has it raises
  \<^verbatim>\<open>ValueError\<close> and changes nothing; for a known name it clears the owner, whatever it
  was, and changes no sample and no other position.
\<close>

theorem release_sample_position_clears:
  "(position \<notin> pos_name ` set (sample_positions_collection db) \<longrightarrow>
      release_sample_position position db =
        (Inl (ValueError (InvalidSamplePosition position)), db)) \<and>
   (position \<in> pos_name ` set (sample_positions_collection db) \<longrightarrow>
      (\<exists>db' sp. release_sample_position position db = (Inr (), db') \<and>
         get_sample_position db position = Some sp \<and>
         get_sample_position db' position = Some (sp\<lparr>pos_task_id := None\<rparr>) \<and>
         sample_collection db' = sample_collection db \<and>
         (\<forall>q. q \<noteq> position \<longrightarrow> get_sample_position db' q = get_sample_position db q)))"
proof (intro conjI impI)
  assume "position \<notin> pos_name ` set (sample_positions_collection db)"
  then show "release_sample_position position db =
        (Inl (ValueError (InvalidSamplePosition position)), db)"
    by (simp add: release_sample_position_def get_sample_position_None)
next
  assume "position \<in> pos_name ` set (sample_positions_collection db)"
  from get_sample_position_Some [OF this] obtain sp where
    sp: "get_sample_position db position = Some sp" by blast
  let ?db' = "db\<lparr>sample_positions_collection :=
                 update_one (\<lambda>sp. pos_name sp = position) (set_task_id None)
                   (sample_positions_collection db)\<rparr>"
  from sp have r: "release_sample_position position db = (Inr (), ?db')"
    by (simp add: release_sample_position_def)
  have same: "get_sample_position ?db' position = Some (sp\<lparr>pos_task_id := None\<rparr>)"
    using sp by (simp add: get_sample_position_def find_update_one_same set_task_id_def)
  have other: "\<forall>q. q \<noteq> position \<longrightarrow> get_sample_position ?db' q = get_sample_position db q"
  proof (intro allI impI)
    fix q assume "q \<noteq> position"
    then have "find (\<lambda>sp. pos_name sp = q)
          (update_one (\<lambda>sp. pos_name sp = position) (set_task_id None)
             (sample_positions_collection db)) =
        find (\<lambda>sp. pos_name sp = q) (sample_positions_collection db)"
      by (intro find_update_one_other) auto
    then show "get_sample_position ?db' q = get_sample_position db q"
      by (simp add: get_sample_position_def)
  qed
  from r sp same other
  show "\<exists>db' sp. release_sample_position position db = (Inr (), db') \<and>
         get_sample_position db position = Some sp \<and>
         get_sample_position db' position = Some (sp\<lparr>pos_task_id := None\<rparr>) \<and>
         sample_collection db' = sample_collection db \<and>
         (\<forall>q. q \<noteq> position \<longrightarrow> get_sample_position db' q = get_sample_position db q)"
    by (intro exI [of _ ?db'] exI [of _ sp]) simp
qed

theorem release_sample_position_clears_witness:
  "release_sample_position ''D'' ex_lock_db =
     (Inl (ValueError (InvalidSamplePosition ''D'')), ex_lock_db) \<and>
   release_sample_position ''B'' ex_lock_db =
     (Inr (), \<lparr>sample_positions_collection = [pos ''A'' None, pos ''B'' None],
               sample_collection = [smp 1 (Some ''A'') (Some 1)]\<rparr>)"
  using release_sample_position_clears [of "''D''" ex_lock_db]
    release_sample_position_clears [of "''B''" ex_lock_db]
  by (simp add: ex_lock_db_def pos_def smp_def release_sample_position_def
      get_sample_position_def set_task_id_def)

end
